theory Spec2Isabelle
  imports Complex_Main
begin

section \<open>Errors\<close>

text \<open>
  The exceptions the two components raise, as values. \<open>FileParseError\<close> carries its message
  and the reader's line number, as in \<^verbatim>\<open>FileParseError(msg, reader.lineNumber())\<close>;
  \<open>RuntimeError\<close> and \<open>LogicError\<close> are \<^verbatim>\<open>std::runtime_error\<close> and
  \<^verbatim>\<open>std::logic_error\<close>. \<open>OutOfRange\<close> stands for an access outside a vector, a
  buffer, an object or a token sequence: the source does not check these
  (\<^verbatim>\<open>operator[]\<close>), so the behaviour of the program is undefined there and the model
  stops with this value. \<open>Overflow\<close> stands for the overflow of a signed integer, which
  is undefined as well.
\<close>

datatype error =
    FileParseError string nat
  | RuntimeError string
  | LogicError string
  | XDRDataSizeError
  | OutOfRange
  | Overflow

section \<open>The topology model (amber.cpp)\<close>

subsection \<open>Atoms\<close>

text \<open>
  Modelled from the spec: the class \<^verbatim>\<open>Atom\<close> (Atom.hpp is not part of the sources at
  hand). An atom record carries "identity, name, charge, mass, residue id, residue name, and
  a set of bonded-neighbor references"; the neighbours are kept as the identities of the
  bonded atoms, in the order they were added.
\<close>

record atom =
  atom_id :: nat
  atom_name :: string
  charge :: real
  mass :: real
  resid :: int
  resname :: string
  bonds :: "nat list"

text \<open>
  Modelled from the spec: \<^verbatim>\<open>Atom::isBoundTo\<close> and \<^verbatim>\<open>Atom::addBond\<close>, the
  "query existing-bond" and "add bonded-neighbor" operations of the atom container interface.
\<close>

definition isBoundTo :: "atom \<Rightarrow> atom \<Rightarrow> bool" where
  "isBoundTo a b = (atom_id b \<in> set (bonds a))"

definition addBond :: "atom \<Rightarrow> atom \<Rightarrow> atom" where
  "addBond a b = a\<lparr>bonds := bonds a @ [atom_id b]\<rparr>"

subsection \<open>The line reader\<close>

text \<open>
  Modelled from the spec: the line cursor \<^verbatim>\<open>reader\<close> (its class is not part of the
  sources at hand), "a line-based text cursor (current line, advance, line number for
  diagnostics)". \<open>pending\<close> holds the lines not yet read.
\<close>

record reader =
  pending :: "string list"
  line :: string
  lineNumber :: nat

definition getNext :: "reader \<Rightarrow> bool \<times> reader" where
  "getNext rd =
     (case pending rd of
        [] \<Rightarrow> (False, rd)
      | l # ls \<Rightarrow> (True, rd\<lparr>pending := ls, line := l, lineNumber := lineNumber rd + 1\<rparr>))"

subsection \<open>Formatted extraction from a string stream\<close>

text \<open>
  \<^verbatim>\<open>std::istringstream\<close>, as far as \<open>parseFormat\<close> uses it: the characters not yet read
  and the fail bit. \<^verbatim>\<open>iss.clear(); iss.seekg(0)\<close> starts again from the whole token with
  the fail bit cleared, so every grammar is tried on a fresh stream.
\<close>

type_synonym istringstream = "string \<times> bool"

definition isspace :: "char \<Rightarrow> bool" where
  "isspace c = (c \<in> set [CHR '' '', CHR 0x09, CHR 0x0A, CHR 0x0B, CHR 0x0C, CHR 0x0D])"

definition isdigit :: "char \<Rightarrow> bool" where
  "isdigit c = (c \<in> set ''0123456789'')"

definition digit_val :: "char \<Rightarrow> nat" where
  "digit_val c = of_char c - 48"

definition digits_val :: "string \<Rightarrow> nat" where
  "digits_val ds = foldl (\<lambda>v c. 10 * v + digit_val c) 0 ds"

text \<open>
  \<^verbatim>\<open>iss >> c\<close> for a \<^verbatim>\<open>char\<close>: skips white space and takes the next character. The first
  component is the value stored into the variable, \<open>None\<close> when the variable is left as
  it was.
\<close>

definition extract_char :: "istringstream \<Rightarrow> char option \<times> istringstream" where
  "extract_char s =
     (if snd s then (None, s)
      else case dropWhile isspace (fst s) of
             [] \<Rightarrow> (None, ([], True))
           | c # cs \<Rightarrow> (Some c, (cs, False)))"

text \<open>
  \<^verbatim>\<open>iss >> n\<close> for an \<^verbatim>\<open>int\<close>: skips white space, reads an optional sign and the longest
  run of decimal digits. Without a digit the extraction fails and stores 0; a value outside
  the 32-bit range fails and stores the nearest limit. On a stream that has already failed,
  or that ends before a character is found, nothing is stored.
\<close>

definition extract_int :: "istringstream \<Rightarrow> int option \<times> istringstream" where
  "extract_int s =
     (if snd s then (None, s)
      else case dropWhile isspace (fst s) of
             [] \<Rightarrow> (None, ([], True))
           | c # cs \<Rightarrow>
               (let neg = (c = CHR ''-'');
                    ds = (if c = CHR ''-'' \<or> c = CHR ''+'' then cs else c # cs);
                    digs = takeWhile isdigit ds;
                    rest = dropWhile isdigit ds;
                    v = (if neg then - int (digits_val digs) else int (digits_val digs))
                in if digs = [] then (Some 0, (rest, True))
                   else if v > 2147483647 then (Some 2147483647, (rest, True))
                   else if v < - 2147483648 then (Some (- 2147483648), (rest, True))
                   else (Some v, (rest, False))))"

text \<open>
  \<^verbatim>\<open>iss >> n\<close> for a \<^verbatim>\<open>uint\<close>: as for \<^verbatim>\<open>int\<close>, but the digits must fit 32 bits and a
  leading minus sign negates the value modulo \<open>2 ^ 32\<close>.
\<close>

definition extract_uint :: "istringstream \<Rightarrow> nat option \<times> istringstream" where
  "extract_uint s =
     (if snd s then (None, s)
      else case dropWhile isspace (fst s) of
             [] \<Rightarrow> (None, ([], True))
           | c # cs \<Rightarrow>
               (let neg = (c = CHR ''-'');
                    ds = (if c = CHR ''-'' \<or> c = CHR ''+'' then cs else c # cs);
                    digs = takeWhile isdigit ds;
                    rest = dropWhile isdigit ds;
                    v = digits_val digs
                in if digs = [] then (Some 0, (rest, True))
                   else if v > 4294967295 then (Some 4294967295, (rest, True))
                   else if neg then (Some ((4294967296 - v) mod 4294967296), (rest, False))
                   else (Some v, (rest, False))))"

definition store :: "'a option \<Rightarrow> 'a \<Rightarrow> 'a" where
  "store r old = (case r of None \<Rightarrow> old | Some v \<Rightarrow> v)"

subsection \<open>parseFormat\<close>

text \<open>
  \<^verbatim>\<open>Amber::FormatSpec\<close>. Its declaration (amber.hpp) is not part of the sources at hand, so
  the freshly constructed \<^verbatim>\<open>FormatSpec fmt\<close> is a parameter \<open>fmt0\<close> of \<open>parseFormat\<close>.
\<close>

record FormatSpec =
  repeat :: int
  type :: char
  width :: int
  precision :: int

text \<open>
  \<^verbatim>\<open>boost::tokenizer\<close> with \<^verbatim>\<open>char_separator<char> sep\<close>: the maximal runs of characters
  that are not separators; empty tokens are dropped.
\<close>

fun tokenizer_acc :: "string \<Rightarrow> string \<Rightarrow> string \<Rightarrow> string list" where
  "tokenizer_acc sep acc [] = (if acc = [] then [] else [acc])"
| "tokenizer_acc sep acc (c # cs) =
     (if c \<in> set sep
      then (if acc = [] then tokenizer_acc sep [] cs else acc # tokenizer_acc sep [] cs)
      else tokenizer_acc sep (acc @ [c]) cs)"

definition tokenizer :: "string \<Rightarrow> string \<Rightarrow> string list" where
  "tokenizer sep l = tokenizer_acc sep [] l"

text \<open>The four grammars, each an extraction chain on the fresh stream over the token.\<close>

definition try_nXwd :: "string \<Rightarrow> FormatSpec \<Rightarrow> bool \<times> FormatSpec" where
  "try_nXwd tok fmt =
     (let (r, s1) = extract_int (tok, False);
          (t, s2) = extract_char s1;
          (w, s3) = extract_int s2;
          (p, s4) = extract_char s3;
          (d, s5) = extract_int s4
      in (\<not> snd s5,
          fmt\<lparr>repeat := store r (repeat fmt), type := store t (type fmt),
              width := store w (width fmt), precision := store d (precision fmt)\<rparr>))"

definition try_nXw :: "string \<Rightarrow> FormatSpec \<Rightarrow> bool \<times> FormatSpec" where
  "try_nXw tok fmt =
     (let (r, s1) = extract_int (tok, False);
          (t, s2) = extract_char s1;
          (w, s3) = extract_int s2
      in (\<not> snd s3,
          fmt\<lparr>repeat := store r (repeat fmt), type := store t (type fmt),
              width := store w (width fmt)\<rparr>))"

definition try_Xw :: "string \<Rightarrow> FormatSpec \<Rightarrow> bool \<times> FormatSpec" where
  "try_Xw tok fmt =
     (let (t, s1) = extract_char (tok, False);
          (w, s2) = extract_int s1
      in (\<not> snd s2, fmt\<lparr>type := store t (type fmt), width := store w (width fmt)\<rparr>))"

definition try_X :: "string \<Rightarrow> FormatSpec \<Rightarrow> bool \<times> FormatSpec" where
  "try_X tok fmt =
     (let (t, s1) = extract_char (tok, False)
      in (\<not> snd s1, fmt\<lparr>type := store t (type fmt)\<rparr>))"

text \<open>
  The nested attempts of \<open>parseFormat\<close>: a failed attempt keeps what it has stored into
  \<open>fmt\<close>, and the next one starts from there. \<open>None\<close> is the case where the source throws
  "Cannot parse format".
\<close>

definition parse_spec :: "string \<Rightarrow> FormatSpec \<Rightarrow> FormatSpec option" where
  "parse_spec tok fmt0 =
     (let (ok1, f1) = try_nXwd tok fmt0 in
      if ok1 then Some f1
      else let (ok2, f2) = try_nXw tok f1 in
        if ok2 then Some f2
        else let (ok3, f3) = try_Xw tok f2 in
          if ok3 then Some f3
          else let (ok4, f4) = try_X tok f3 in
            if ok4 then Some f4 else None)"

definition parseFormat ::
  "FormatSpec \<Rightarrow> string \<Rightarrow> string \<Rightarrow> reader \<Rightarrow> (error + FormatSpec) \<times> reader" where
  "parseFormat fmt0 expected_types where' rd =
     (let rd1 = snd (getNext rd) in
      if take 7 (line rd1) \<noteq> ''%FORMAT''
      then (Inl (FileParseError (''Expected format for '' @ where') (lineNumber rd1)), rd1)
      else case tokenizer ''()'' (line rd1) of
             t0 # tok # ts \<Rightarrow>
               (case parse_spec tok fmt0 of
                  None \<Rightarrow>
                    (Inl (FileParseError (''Cannot parse format for '' @ where') (lineNumber rd1)), rd1)
                | Some fmt \<Rightarrow>
                    if type fmt \<notin> set expected_types
                    then (Inl (FileParseError (''Invalid format type for '' @ where')
                                (lineNumber rd1)), rd1)
                    else (Inr fmt, rd1))
           | _ \<Rightarrow> (Inl OutOfRange, rd1))"

subsection \<open>The parser state\<close>

text \<open>
  The members of \<^verbatim>\<open>Amber\<close> that the section handlers read and write. The counts and
  the residue pointers are \<^verbatim>\<open>uint\<close> in the source; they are natural numbers here, and
  every subtraction that can wrap is written out modulo \<open>2 ^ 32\<close>.
\<close>

record amber =
  rdr :: reader
  atoms :: "atom list"
  natoms :: nat
  nbonh :: nat
  mbona :: nat
  nres :: nat
  residue_labels :: "string list"
  residue_pointers :: "nat list"
  title :: string
  amoeba_regular_bond_num_list :: nat

text \<open>
  \<^verbatim>\<open>readBlock<T>(fmt.width)\<close> is a template of amber.hpp and not part of the sources at
  hand: every handler takes it as a parameter, a function from the field width and the
  reader to the values read and the reader after them.
\<close>

type_synonym 'a readBlock = "int \<Rightarrow> reader \<Rightarrow> 'a list \<times> reader"

text \<open>\<open>x - 1\<close> on a \<^verbatim>\<open>uint\<close>.\<close>

definition uint_dec :: "nat \<Rightarrow> nat" where
  "uint_dec x = (x + 4294967295) mod 4294967296"

subsection \<open>Per-atom sections\<close>

text \<open>
  The loop \<^verbatim>\<open>for (uint i=0; i<vals.size(); ++i) atoms[i]->attr(vals[i])\<close> shared by the
  handlers of atom names, charges and masses; \<open>upd\<close> is the setter.
\<close>

function assign_loop ::
  "(atom \<Rightarrow> 'a \<Rightarrow> atom) \<Rightarrow> nat \<Rightarrow> 'a list \<Rightarrow> atom list \<Rightarrow> error option \<times> atom list" where
  "assign_loop upd i vals as =
     (if i < length vals then
        (if i < length as
         then assign_loop upd (i + 1) vals (as[i := upd (as ! i) (vals ! i)])
         else (Some OutOfRange, as))
      else (None, as))"
  by pat_completeness auto
termination
  by (relation "measure (\<lambda>(upd, i, vals, as). length vals - i)") auto

declare assign_loop.simps [simp del]

definition parseCharges :: "FormatSpec \<Rightarrow> real readBlock \<Rightarrow> amber \<Rightarrow> error option \<times> amber" where
  "parseCharges fmt0 readBlock st =
     (case parseFormat fmt0 ''EFG'' ''charges'' (rdr st) of
        (Inl e, rd) \<Rightarrow> (Some e, st\<lparr>rdr := rd\<rparr>)
      | (Inr fmt, rd) \<Rightarrow>
          (let (charges, rd') = readBlock (width fmt) rd;
               st1 = st\<lparr>rdr := rd'\<rparr>
           in if length charges \<noteq> length (atoms st1)
              then (Some (FileParseError ''Error parsing charges from amber file'' (lineNumber rd')),
                    st1)
              else (case assign_loop (\<lambda>a v. a\<lparr>charge := v\<rparr>) 0 charges (atoms st1) of
                      (e, as) \<Rightarrow> (e, st1\<lparr>atoms := as\<rparr>))))"

definition parseMasses :: "FormatSpec \<Rightarrow> real readBlock \<Rightarrow> amber \<Rightarrow> error option \<times> amber" where
  "parseMasses fmt0 readBlock st =
     (case parseFormat fmt0 ''EFG'' ''masses'' (rdr st) of
        (Inl e, rd) \<Rightarrow> (Some e, st\<lparr>rdr := rd\<rparr>)
      | (Inr fmt, rd) \<Rightarrow>
          (let (masses, rd') = readBlock (width fmt) rd;
               st1 = st\<lparr>rdr := rd'\<rparr>
           in if length masses \<noteq> length (atoms st1)
              then (Some (FileParseError ''Error parsing masses from amber file'' (lineNumber rd')),
                    st1)
              else (case assign_loop (\<lambda>a v. a\<lparr>mass := v\<rparr>) 0 masses (atoms st1) of
                      (e, as) \<Rightarrow> (e, st1\<lparr>atoms := as\<rparr>))))"

definition parseAtomNames :: "FormatSpec \<Rightarrow> string readBlock \<Rightarrow> amber \<Rightarrow> error option \<times> amber" where
  "parseAtomNames fmt0 readBlock st =
     (case parseFormat fmt0 ''a'' ''atom names'' (rdr st) of
        (Inl e, rd) \<Rightarrow> (Some e, st\<lparr>rdr := rd\<rparr>)
      | (Inr fmt, rd) \<Rightarrow>
          (let (names, rd') = readBlock (width fmt) rd;
               st1 = st\<lparr>rdr := rd'\<rparr>
           in if length names \<noteq> natoms st1
              then (Some (FileParseError ''Error parsing atom names'' (lineNumber rd')), st1)
              else (case assign_loop (\<lambda>a v. a\<lparr>atom_name := v\<rparr>) 0 names (atoms st1) of
                      (e, as) \<Rightarrow> (e, st1\<lparr>atoms := as\<rparr>))))"

subsection \<open>Residues\<close>

definition parseResidueLabels ::
  "FormatSpec \<Rightarrow> string readBlock \<Rightarrow> amber \<Rightarrow> error option \<times> amber" where
  "parseResidueLabels fmt0 readBlock st =
     (case parseFormat fmt0 ''a'' ''residue labels'' (rdr st) of
        (Inl e, rd) \<Rightarrow> (Some e, st\<lparr>rdr := rd\<rparr>)
      | (Inr fmt, rd) \<Rightarrow>
          (let (labels, rd') = readBlock (width fmt) rd;
               st1 = st\<lparr>rdr := rd', residue_labels := labels\<rparr>
           in if length (residue_labels st1) \<noteq> nres st1
              then (Some (FileParseError ''Error parsing residue labels from amber file''
                           (lineNumber rd')), st1)
              else (None, st1)))"

definition parseResiduePointers ::
  "FormatSpec \<Rightarrow> nat readBlock \<Rightarrow> amber \<Rightarrow> error option \<times> amber" where
  "parseResiduePointers fmt0 readBlock st =
     (case parseFormat fmt0 ''I'' ''residue pointers'' (rdr st) of
        (Inl e, rd) \<Rightarrow> (Some e, st\<lparr>rdr := rd\<rparr>)
      | (Inr fmt, rd) \<Rightarrow>
          (let (ptrs, rd') = readBlock (width fmt) rd;
               st1 = st\<lparr>rdr := rd', residue_pointers := ptrs\<rparr>
           in if length (residue_pointers st1) \<noteq> nres st1
              then (Some (FileParseError ''Error parsing residue pointers from amber file''
                           (lineNumber rd')), st1)
              else (None, st1)))"

text \<open>
  The inner loop of \<open>assignResidues\<close>:
  \<^verbatim>\<open>for (uint j = residue_pointers[i]; j<residue_pointers[i+1]; j++)\<close>, stamping
  \<^verbatim>\<open>atoms[j-1]\<close>. Here \<open>hi\<close> is \<^verbatim>\<open>residue_pointers[i+1]\<close>, and \<open>uint_dec j\<close> is the
  index \<^verbatim>\<open>j-1\<close>, which wraps when \<open>j = 0\<close>.
\<close>

function stamp_range ::
  "nat \<Rightarrow> nat \<Rightarrow> int \<Rightarrow> string \<Rightarrow> atom list \<Rightarrow> error option \<times> atom list" where
  "stamp_range j hi curresid curresname as =
     (if j < hi then
        (if uint_dec j < length as
         then stamp_range (j + 1) hi curresid curresname
                (as[uint_dec j := (as ! uint_dec j)\<lparr>resid := curresid, resname := curresname\<rparr>])
         else (Some OutOfRange, as))
      else (None, as))"
  by pat_completeness auto
termination
  by (relation "measure (\<lambda>(j, hi, curresid, curresname, as). hi - j)") auto

declare stamp_range.simps [simp del]

text \<open>
  The loop after "Fix the end...":
  \<^verbatim>\<open>for (uint j = residue_pointers[i]-1; j<natoms; j++)\<close>, stamping \<^verbatim>\<open>atoms[j]\<close>.
\<close>

function stamp_tail ::
  "nat \<Rightarrow> nat \<Rightarrow> int \<Rightarrow> string \<Rightarrow> atom list \<Rightarrow> error option \<times> atom list" where
  "stamp_tail j n curresid curresname as =
     (if j < n then
        (if j < length as
         then stamp_tail (j + 1) n curresid curresname
                (as[j := (as ! j)\<lparr>resid := curresid, resname := curresname\<rparr>])
         else (Some OutOfRange, as))
      else (None, as))"
  by pat_completeness auto
termination
  by (relation "measure (\<lambda>(j, n, curresid, curresname, as). n - j)") auto

declare stamp_tail.simps [simp del]

text \<open>
  The outer loop \<^verbatim>\<open>for (i=0; i<nres-1; i++)\<close>. It returns the error, if any, and the
  values of \<open>i\<close>, \<open>curresid\<close> and the atoms when it stops. The bound \<open>uint_dec n\<close> is
  \<^verbatim>\<open>nres-1\<close> on a \<^verbatim>\<open>uint\<close>. \<open>curresid\<close> is a 32-bit \<^verbatim>\<open>int\<close>: \<^verbatim>\<open>++curresid\<close> at
  \<open>2 ^ 31 - 1\<close> overflows. Every read of \<open>residue_labels\<close> and \<open>residue_pointers\<close> is
  checked against the size of the vector in the order the source performs it.
\<close>

function residue_loop ::
  "nat \<Rightarrow> string list \<Rightarrow> nat list \<Rightarrow> nat \<Rightarrow> int \<Rightarrow> atom list
     \<Rightarrow> error option \<times> nat \<times> int \<times> atom list" where
  "residue_loop n labels ptrs i curresid as =
     (if i < uint_dec n then
        (if curresid = 2147483647 then (Some Overflow, i, curresid, as)
         else if i < length labels then
           (if i < length ptrs then
              (if i + 1 < length ptrs then
                 (case stamp_range (ptrs ! i) (ptrs ! (i + 1)) (curresid + 1) (labels ! i) as of
                    (Some e, as') \<Rightarrow> (Some e, i, curresid + 1, as')
                  | (None, as') \<Rightarrow> residue_loop n labels ptrs (i + 1) (curresid + 1) as')
               else (Some OutOfRange, i, curresid + 1, as))
            else (Some OutOfRange, i, curresid + 1, as))
         else (Some OutOfRange, i, curresid + 1, as))
      else (None, i, curresid, as))"
  by pat_completeness auto
termination
  by (relation "measure (\<lambda>(n, labels, ptrs, i, curresid, as). uint_dec n - i)") auto

declare residue_loop.simps [simp del]

definition assignResidues :: "amber \<Rightarrow> error option \<times> amber" where
  "assignResidues st =
     (if \<not> (length (residue_pointers st) = nres st \<and> length (residue_labels st) = nres st)
      then (Some (RuntimeError ''Unable to assign residues.''), st)
      else case residue_loop (nres st) (residue_labels st) (residue_pointers st) 0 0 (atoms st) of
             (Some e, i, curresid, as) \<Rightarrow> (Some e, st\<lparr>atoms := as\<rparr>)
           | (None, i, curresid, as) \<Rightarrow>
               (if curresid = 2147483647 then (Some Overflow, st\<lparr>atoms := as\<rparr>)
                else if i < length (residue_labels st) then
                  (if i < length (residue_pointers st) then
                     (case stamp_tail (uint_dec (residue_pointers st ! i)) (natoms st)
                             (curresid + 1) (residue_labels st ! i) as of
                        (e, as') \<Rightarrow> (e, st\<lparr>atoms := as'\<rparr>))
                   else (Some OutOfRange, st\<lparr>atoms := as\<rparr>))
                else (Some OutOfRange, st\<lparr>atoms := as\<rparr>)))"

subsection \<open>Bonds\<close>

text \<open>Division of \<^verbatim>\<open>int\<close>s in C++ truncates towards zero.\<close>

definition cdiv :: "int \<Rightarrow> int \<Rightarrow> int" where
  "cdiv a b = sgn a * sgn b * (\<bar>a\<bar> div \<bar>b\<bar>)"

text \<open>
  "Amber bond lists are not symmetric, so make sure we add both pairs": the two guarded
  \<open>addBond\<close> calls on \<^verbatim>\<open>aatom = atoms[ia]\<close> and \<^verbatim>\<open>batom = atoms[ib]\<close>. The atoms are
  shared objects, so the second test reads the atoms as the first call has left them.
\<close>

definition bond_pair :: "nat \<Rightarrow> nat \<Rightarrow> atom list \<Rightarrow> atom list" where
  "bond_pair ia ib as =
     (let as1 = (if \<not> isBoundTo (as ! ia) (as ! ib)
                 then as[ia := addBond (as ! ia) (as ! ib)] else as)
      in if \<not> isBoundTo (as1 ! ib) (as1 ! ia)
         then as1[ib := addBond (as1 ! ib) (as1 ! ia)] else as1)"

text \<open>
  The loop \<^verbatim>\<open>for (uint i=0; i<bond_list.size(); i += 3)\<close> of \<open>parseBonds\<close> and of
  \<open>parseAmoebaRegularBondList\<close>, which differ only in how a stored value is turned into a
  position of \<open>atoms\<close>: \<open>idx\<close> is \<^verbatim>\<open>bond_list[i]/3\<close> in the first and
  \<^verbatim>\<open>bond_list[i]-1\<close> in the second. A negative position is converted to a huge unsigned
  one by \<^verbatim>\<open>operator[]\<close>, so it is outside the vector. The size test before the loop bounds
  the size by \<open>2 ^ 32\<close>, so \<open>i\<close> does not wrap.
\<close>

function bond_loop ::
  "(int \<Rightarrow> int) \<Rightarrow> nat \<Rightarrow> int list \<Rightarrow> atom list \<Rightarrow> error option \<times> atom list" where
  "bond_loop idx i bond_list as =
     (if i < length bond_list then
        (if i + 1 < length bond_list then
           (if bond_list ! i = bond_list ! (i + 1) then bond_loop idx (i + 3) bond_list as
            else if 0 \<le> idx (bond_list ! i) \<and> idx (bond_list ! i) < int (length as) then
              (if 0 \<le> idx (bond_list ! (i + 1)) \<and> idx (bond_list ! (i + 1)) < int (length as)
               then bond_loop idx (i + 3) bond_list
                      (bond_pair (nat (idx (bond_list ! i))) (nat (idx (bond_list ! (i + 1)))) as)
               else (Some OutOfRange, as))
            else (Some OutOfRange, as))
         else (Some OutOfRange, as))
      else (None, as))"
  by pat_completeness auto
termination
  by (relation "measure (\<lambda>(idx, i, bond_list, as). length bond_list - i)") auto

declare bond_loop.simps [simp del]

text \<open>\<open>3*n\<close> is computed on \<^verbatim>\<open>uint\<close>s, so it is taken modulo \<open>2 ^ 32\<close>.\<close>

definition parseBonds :: "FormatSpec \<Rightarrow> int readBlock \<Rightarrow> nat \<Rightarrow> amber \<Rightarrow> error option \<times> amber" where
  "parseBonds fmt0 readBlock n st =
     (case parseFormat fmt0 ''I'' ''bonds'' (rdr st) of
        (Inl e, rd) \<Rightarrow> (Some e, st\<lparr>rdr := rd\<rparr>)
      | (Inr fmt, rd) \<Rightarrow>
          (let (bond_list, rd') = readBlock (width fmt) rd;
               st1 = st\<lparr>rdr := rd'\<rparr>
           in if length bond_list \<noteq> (3 * n) mod 4294967296
              then (Some (FileParseError ''Error parsing bonds in amber file'' (lineNumber rd')),
                    st1)
              else (case bond_loop (\<lambda>k. cdiv k 3) 0 bond_list (atoms st1) of
                      (e, as) \<Rightarrow> (e, st1\<lparr>atoms := as\<rparr>))))"

definition parseAmoebaRegularBondList ::
  "FormatSpec \<Rightarrow> int readBlock \<Rightarrow> nat \<Rightarrow> amber \<Rightarrow> error option \<times> amber" where
  "parseAmoebaRegularBondList fmt0 readBlock n st =
     (case parseFormat fmt0 ''I'' ''amoeba_regular_bond_list'' (rdr st) of
        (Inl e, rd) \<Rightarrow> (Some e, st\<lparr>rdr := rd\<rparr>)
      | (Inr fmt, rd) \<Rightarrow>
          (let (bond_list, rd') = readBlock (width fmt) rd;
               st1 = st\<lparr>rdr := rd'\<rparr>
           in if length bond_list \<noteq> (3 * n) mod 4294967296
              then (Some (FileParseError ''Error parsing amoeba bonds in amber file''
                           (lineNumber rd')), st1)
              else (case bond_loop (\<lambda>k. k - 1) 0 bond_list (atoms st1) of
                      (e, as) \<Rightarrow> (e, st1\<lparr>atoms := as\<rparr>))))"

definition parseAmoebaRegularBondNumList :: "FormatSpec \<Rightarrow> amber \<Rightarrow> error option \<times> amber" where
  "parseAmoebaRegularBondNumList fmt0 st =
     (case parseFormat fmt0 ''I'' ''amoeba_regular_num_bond_list'' (rdr st) of
        (Inl e, rd) \<Rightarrow> (Some e, st\<lparr>rdr := rd\<rparr>)
      | (Inr fmt, rd) \<Rightarrow>
          (let rd' = snd (getNext rd);
               (v, iss) = extract_uint (line rd', False);
               st1 = st\<lparr>rdr := rd',
                        amoeba_regular_bond_num_list := store v (amoeba_regular_bond_num_list st)\<rparr>
           in if snd iss
              then (Some (FileParseError ''Error parsing amoeba_regular_bond_num_list''
                           (lineNumber rd')), st1)
              else (None, st1)))"

subsection \<open>Pointers and title\<close>

text \<open>
  The loop of \<open>parsePointers\<close> that builds the atoms. \<open>a0\<close> is a default-constructed
  \<^verbatim>\<open>Atom\<close> (\<^verbatim>\<open>new Atom\<close>; the constructor is not part of the sources at hand), a
  parameter.
\<close>

function build_atoms :: "atom \<Rightarrow> nat \<Rightarrow> nat \<Rightarrow> atom list \<Rightarrow> atom list" where
  "build_atoms a0 i n as =
     (if i < n then build_atoms a0 (i + 1) n (as @ [a0\<lparr>atom_id := i + 1\<rparr>]) else as)"
  by pat_completeness auto
termination
  by (relation "measure (\<lambda>(a0, i, n, as). n - i)") auto

declare build_atoms.simps [simp del]

text \<open>
  \<open>natoms\<close>, \<open>nbonh\<close>, \<open>mbona\<close> and \<open>nres\<close> are assigned, in this order, before the atom
  container is tested; each read of \<open>pointers\<close> is checked against its size.
\<close>

definition parsePointers ::
  "FormatSpec \<Rightarrow> atom \<Rightarrow> nat readBlock \<Rightarrow> amber \<Rightarrow> error option \<times> amber" where
  "parsePointers fmt0 a0 readBlock st =
     (case parseFormat fmt0 ''I'' ''pointers'' (rdr st) of
        (Inl e, rd) \<Rightarrow> (Some e, st\<lparr>rdr := rd\<rparr>)
      | (Inr fmt, rd) \<Rightarrow>
          (let (pointers, rd') = readBlock (width fmt) rd;
               st1 = st\<lparr>rdr := rd'\<rparr>
           in if \<not> 0 < length pointers then (Some OutOfRange, st1)
              else let st2 = st1\<lparr>natoms := pointers ! 0\<rparr> in
                if \<not> 2 < length pointers then (Some OutOfRange, st2)
                else let st3 = st2\<lparr>nbonh := pointers ! 2\<rparr> in
                  if \<not> 3 < length pointers then (Some OutOfRange, st3)
                  else let st4 = st3\<lparr>mbona := pointers ! 3\<rparr> in
                    if \<not> 11 < length pointers then (Some OutOfRange, st4)
                    else let st5 = st4\<lparr>nres := pointers ! 11\<rparr> in
                      if length (atoms st5) \<noteq> 0
                      then (Some (LogicError
                              ''Internal error: trying to read in an amber parmtop into a non-empty group!''),
                            st5)
                      else (None, st5\<lparr>atoms := build_atoms a0 0 (natoms st5) (atoms st5)\<rparr>)))"

definition parseTitle :: "FormatSpec \<Rightarrow> string readBlock \<Rightarrow> amber \<Rightarrow> error option \<times> amber" where
  "parseTitle fmt0 readBlock st =
     (case parseFormat fmt0 ''a'' ''title'' (rdr st) of
        (Inl e, rd) \<Rightarrow> (Some e, st\<lparr>rdr := rd\<rparr>)
      | (Inr fmt, rd) \<Rightarrow>
          (let (titles, rd') = readBlock (width fmt) rd
           in (None, st\<lparr>rdr := rd', title := title st @ concat titles\<rparr>)))"

section \<open>The binary codec (xdr.hpp)\<close>

subsection \<open>Streams\<close>

text \<open>
  \<^verbatim>\<open>std::istream\<close>, as far as the reader uses it: the bytes not yet read and the fail bit.
  \<^verbatim>\<open>stream->read(p, n)\<close> delivers nothing on a failed stream; when fewer than \<open>n\<close> bytes
  are left it delivers them and sets the fail bit.
\<close>

record istream =
  ibuf :: "char list"
  ifail :: bool

definition istream_read :: "nat \<Rightarrow> istream \<Rightarrow> char list \<times> istream" where
  "istream_read n s =
     (if ifail s then ([], s)
      else if n \<le> length (ibuf s) then (take n (ibuf s), s\<lparr>ibuf := drop n (ibuf s)\<rparr>)
      else (ibuf s, s\<lparr>ibuf := [], ifail := True\<rparr>))"

text \<open>
  \<^verbatim>\<open>std::ostream\<close>: the bytes written so far, the fail bit and the bad bit.
  \<^verbatim>\<open>stream->write(p, n)\<close> writes nothing on a stream that is not good, and sets the fail
  bit there.
\<close>

record ostream =
  obuf :: "char list"
  failbit :: bool
  badbit :: bool

definition fail :: "ostream \<Rightarrow> bool" where
  "fail s = (failbit s \<or> badbit s)"

definition ostream_write :: "char list \<Rightarrow> ostream \<Rightarrow> ostream" where
  "ostream_write cs s = (if fail s then s\<lparr>failbit := True\<rparr> else s\<lparr>obuf := obuf s @ cs\<rparr>)"

subsection \<open>Values as bytes\<close>

text \<open>
  A value of a type \<open>T\<close> is its object representation, the list of its \<open>sizeof(T)\<close> bytes
  in memory order. An object that the source leaves uninitialised has indeterminate bytes:
  they are a parameter, a function from the offset in the object to the byte found there.
\<close>

text \<open>
  Modelled from the spec: \<^verbatim>\<open>swab\<close> (utils.hpp is not part of the sources at hand), which
  "swaps byte order": the bytes of the object in reverse order.
\<close>

definition swab :: "char list \<Rightarrow> char list" where
  "swab bs = rev bs"

text \<open>The four bytes of a \<^verbatim>\<open>uint\<close> in the memory of the host, and back.\<close>

definition uint_bytes :: "bool \<Rightarrow> nat \<Rightarrow> char list" where
  "uint_bytes little_endian n =
     (let bs = [char_of n, char_of (n div 256), char_of (n div 65536), char_of (n div 16777216)]
      in if little_endian then bs else rev bs)"

definition bytes_uint :: "bool \<Rightarrow> char list \<Rightarrow> nat" where
  "bytes_uint little_endian bs =
     foldr (\<lambda>c v. of_char c + 256 * v) (if little_endian then bs else rev bs) 0"

subsection \<open>XDRReader\<close>

record XDRReader =
  stream :: istream
  need_to_swab :: bool

text \<open>The constructor: \<open>need_to_swab\<close> is set exactly on a little-endian host.\<close>

definition XDRReader_new :: "bool \<Rightarrow> istream \<Rightarrow> XDRReader" where
  "XDRReader_new little_endian s = \<lparr>stream = s, need_to_swab = little_endian\<rparr>"

text \<open>
  The bytes of an object of \<open>sizeofT\<close> bytes with content \<open>result0\<close> after the bytes
  \<open>got\<close> have been stored from its address on.
\<close>

definition result_bytes :: "nat \<Rightarrow> (nat \<Rightarrow> char) \<Rightarrow> char list \<Rightarrow> char list" where
  "result_bytes sizeofT result0 got =
     map (\<lambda>i. if i < length got then got ! i else result0 i) [0..<sizeofT]"

text \<open>
  \<^verbatim>\<open>template<typename T> uint read(T* p)\<close>. \<open>sizeofT\<close> is \<open>sizeof(T)\<close> and \<open>result0\<close> the
  indeterminate content of \<^verbatim>\<open>T result\<close>. The stream is asked for \<open>sizeof(block_type)\<close>,
  four, bytes and stores what it delivers at the address of \<open>result\<close>, an object of
  \<open>sizeofT\<close> bytes: when it delivers more than \<open>sizeofT\<close> bytes the store runs past the
  object, which is \<open>OutOfRange\<close>. Otherwise the outcome is the value stored through \<open>p\<close>
  and the returned flag.
\<close>

definition read_scalar ::
  "nat \<Rightarrow> (nat \<Rightarrow> char) \<Rightarrow> XDRReader \<Rightarrow> (error + char list \<times> nat) \<times> XDRReader" where
  "read_scalar sizeofT result0 r =
     (if sizeofT > 4 then (Inl XDRDataSizeError, r)
      else let (got, s') = istream_read 4 (stream r)
           in if length got > sizeofT then (Inl OutOfRange, r\<lparr>stream := s'\<rparr>)
              else let result = result_bytes sizeofT result0 got;
                       result' = (if sizeofT > 1 \<and> need_to_swab r then swab result else result)
                   in (Inr (result', if ifail s' then 0 else 1), r\<lparr>stream := s'\<rparr>))"

text \<open>
  \<^verbatim>\<open>uint read(char* p, uint n)\<close>, the opaque read. The outcome is the returned count and
  the bytes stored at \<open>p\<close>.
\<close>

definition read_opaque :: "nat \<Rightarrow> XDRReader \<Rightarrow> (nat \<times> char list) \<times> XDRReader" where
  "read_opaque n r =
     (if n = 0 then ((1, []), r)
      else let rndup0 = n mod 4;
               rndup = (if rndup0 > 0 then 4 - rndup0 else rndup0);
               (got, s1) = istream_read n (stream r)
           in if ifail s1 then ((0, got), r\<lparr>stream := s1\<rparr>)
              else let s2 = (if rndup \<noteq> 0 then snd (istream_read rndup s1) else s1)
                   in ((n, got), r\<lparr>stream := s2\<rparr>))"

text \<open>
  \<^verbatim>\<open>uint read(boost::shared_ptr<char>& p)\<close>: \<open>n0\<close> and \<open>s0\<close> are the indeterminate contents
  of \<^verbatim>\<open>uint n\<close> and of the buffer \<^verbatim>\<open>new char[n+1]\<close>. The outcome is the returned count and
  the buffer \<open>p\<close> is set to, if any. \<open>n+1\<close> wraps to 0 for \<open>n = 2 ^ 32 - 1\<close>, and then
  every store to the buffer is outside it.
\<close>

definition read_cstr ::
  "bool \<Rightarrow> (nat \<Rightarrow> char) \<Rightarrow> (nat \<Rightarrow> char) \<Rightarrow> XDRReader
     \<Rightarrow> (error + nat \<times> char list option) \<times> XDRReader" where
  "read_cstr little_endian n0 s0 r =
     (case read_scalar 4 n0 r of
        (Inl e, r1) \<Rightarrow> (Inl e, r1)
      | (Inr (nb, ok), r1) \<Rightarrow>
          if ok = 0 then (Inr (0, None), r1)
          else let n = bytes_uint little_endian nb in
            if (n + 1) mod 4294967296 = 0 then (Inl OutOfRange, r1)
            else let ((i, got), r2) = read_opaque n r1;
                     s = map (\<lambda>k. if k < length got then got ! k else s0 k) [0..<n] @ [CHR 0x00]
                 in (Inr (i, Some s), r2))"

text \<open>
  \<^verbatim>\<open>uint read(std::string& s)\<close>: \<open>str\<close> is the string \<open>s\<close> refers to. \<^verbatim>\<open>std::string(p.get())\<close>
  is the content of the buffer up to its first zero byte.
\<close>

definition read_string ::
  "bool \<Rightarrow> (nat \<Rightarrow> char) \<Rightarrow> (nat \<Rightarrow> char) \<Rightarrow> string \<Rightarrow> XDRReader
     \<Rightarrow> (error + nat \<times> string) \<times> XDRReader" where
  "read_string little_endian n0 s0 str r =
     (case read_cstr little_endian n0 s0 r of
        (Inl e, r1) \<Rightarrow> (Inl e, r1)
      | (Inr (i, p), r1) \<Rightarrow>
          if i = 0 then (Inr (0, str), r1)
          else (case p of
                  None \<Rightarrow> (Inl OutOfRange, r1)
                | Some buf \<Rightarrow> (Inr (i, takeWhile (\<lambda>c. c \<noteq> CHR 0x00) buf), r1)))"

subsection \<open>XDRWriter\<close>

record XDRWriter =
  stream' :: ostream
  need_to_swab' :: bool

text \<open>
  The constructors: \<open>need_to_swab\<close> is set on a little-endian host and is not initialised
  otherwise; \<open>flag0\<close> is the indeterminate value it then has.
\<close>

definition XDRWriter_new :: "bool \<Rightarrow> bool \<Rightarrow> ostream \<Rightarrow> XDRWriter" where
  "XDRWriter_new little_endian flag0 s =
     \<lparr>stream' = s, need_to_swab' = (if little_endian then True else flag0)\<rparr>"

text \<open>
  \<^verbatim>\<open>template<typename T> uint write(const T& p)\<close>: \<open>p\<close> is the object representation of the
  datum and \<open>u0\<close> the indeterminate content of \<^verbatim>\<open>block_type u\<close>. \<^verbatim>\<open>*up = p\<close> overwrites
  the first \<open>sizeof(T)\<close> bytes of \<open>u\<close>; \<^verbatim>\<open>swab(u)\<close> reverses all four bytes of \<open>u\<close>.
\<close>

definition write_scalar ::
  "char list \<Rightarrow> (nat \<Rightarrow> char) \<Rightarrow> XDRWriter \<Rightarrow> (error + nat) \<times> XDRWriter" where
  "write_scalar p u0 w =
     (if length p > 4 then (Inl XDRDataSizeError, w)
      else let u = p @ map u0 [length p..<4];
               u' = (if length p > 1 \<and> need_to_swab' w then swab u else u);
               s' = ostream_write u' (stream' w)
           in (Inr (if badbit s' then 0 else 1), w\<lparr>stream' := s'\<rparr>))"

text \<open>
  \<^verbatim>\<open>uint write(const char* p, const uint n)\<close>, the opaque write: \<open>p\<close> is the content of the
  buffer, of which \<open>n\<close> bytes are written, and then \<open>rndup\<close> zero bytes from \<open>buf\<close>.
\<close>

definition write_opaque :: "char list \<Rightarrow> nat \<Rightarrow> XDRWriter \<Rightarrow> (error + nat) \<times> XDRWriter" where
  "write_opaque p n w =
     (if n > length p then (Inl OutOfRange, w)
      else let buf = replicate 4 (CHR 0x00);
               rndup0 = n mod 4;
               rndup = (if rndup0 > 0 then 4 - rndup0 else rndup0);
               s1 = ostream_write (take n p) (stream' w);
               s2 = (if \<not> fail s1 then ostream_write (take rndup buf) s1 else s1)
           in (Inr (if fail s2 then 0 else n), w\<lparr>stream' := s2\<rparr>))"

text \<open>
  \<^verbatim>\<open>uint write(const std::string& s)\<close>, through \<^verbatim>\<open>write(s.c_str())\<close>: \<^verbatim>\<open>strlen\<close> counts
  the bytes before the first zero byte, and the count is cut to a \<^verbatim>\<open>uint\<close>. The result of
  writing the length is not looked at.
\<close>

definition strlen :: "string \<Rightarrow> nat" where
  "strlen s = length (takeWhile (\<lambda>c. c \<noteq> CHR 0x00) s)"

definition write_string ::
  "bool \<Rightarrow> (nat \<Rightarrow> char) \<Rightarrow> string \<Rightarrow> XDRWriter \<Rightarrow> (error + nat) \<times> XDRWriter" where
  "write_string little_endian u0 s w =
     (let n = strlen s mod 4294967296
      in case write_scalar (uint_bytes little_endian n) u0 w of
           (Inl e, w1) \<Rightarrow> (Inl e, w1)
         | (Inr ok, w1) \<Rightarrow> write_opaque (s @ [CHR 0x00]) n w1)"

section \<open>Sample inputs\<close>

text \<open>
  Concrete inputs on which the theorems below are instantiated: a freshly constructed format
  record and atom, the atoms as \<open>parsePointers\<close> builds them, a parser state whose reader
  holds one pending line, a parser state with residue tables, and a \<open>readBlock\<close> that
  delivers a fixed block.
\<close>

definition ex_fmt0 :: FormatSpec where
  "ex_fmt0 = \<lparr>repeat = 1, type = CHR ''?'', width = 0, precision = 0\<rparr>"

definition ex_atom0 :: atom where
  "ex_atom0 = \<lparr>atom_id = 0, atom_name = [], charge = 0, mass = 0, resid = 0, resname = [],
               bonds = []\<rparr>"

definition ex_atoms :: "nat \<Rightarrow> atom list" where
  "ex_atoms n = map (\<lambda>k. ex_atom0\<lparr>atom_id := k + 1\<rparr>) [0..<n]"

definition ex_amber :: "string \<Rightarrow> atom list \<Rightarrow> nat \<Rightarrow> amber" where
  "ex_amber l as n =
     \<lparr>rdr = \<lparr>pending = [l], line = [], lineNumber = 0\<rparr>, atoms = as, natoms = n, nbonh = 0,
      mbona = 0, nres = 0, residue_labels = [], residue_pointers = [], title = [],
      amoeba_regular_bond_num_list = 0\<rparr>"

definition ex_residues :: "atom list \<Rightarrow> string list \<Rightarrow> nat list \<Rightarrow> amber" where
  "ex_residues as labels ptrs =
     \<lparr>rdr = \<lparr>pending = [], line = [], lineNumber = 0\<rparr>, atoms = as, natoms = length as,
      nbonh = 0, mbona = 0, nres = length labels, residue_labels = labels,
      residue_pointers = ptrs, title = [], amoeba_regular_bond_num_list = 0\<rparr>"

definition ex_block :: "'a list \<Rightarrow> 'a readBlock" where
  "ex_block vals w rd = (vals, rd)"

text \<open>
  A writer on an empty stream in good state, a reader on a stream in good state that holds
  the given bytes, and zero bytes for every indeterminate content.
\<close>

definition ex_writer :: "bool \<Rightarrow> XDRWriter" where
  "ex_writer flag = \<lparr>stream' = \<lparr>obuf = [], failbit = False, badbit = False\<rparr>,
                       need_to_swab' = flag\<rparr>"

definition ex_reader :: "bool \<Rightarrow> char list \<Rightarrow> XDRReader" where
  "ex_reader flag bs = \<lparr>stream = \<lparr>ibuf = bs, ifail = False\<rparr>, need_to_swab = flag\<rparr>"

definition ex_zero :: "nat \<Rightarrow> char" where
  "ex_zero k = CHR 0x00"

section \<open>Residue assignment\<close>

text \<open>
  C1, as the spec states it: with residue pointers \<open>[1, 5, 9]\<close> over 10 atoms, atoms 1-4
  get residue 0, atoms 5-8 residue 1 and atoms 9-10 residue 2. On the ten atoms that
  \<open>parsePointers\<close> builds, \<open>assignResidues\<close> stamps the residue ids 1, 2 and 3 instead:
  \<open>curresid\<close> starts at 0 and is incremented before it is stamped.
\<close>

theorem assignResidues_ids_counterexample:
  "map resid (atoms (snd (assignResidues
      (ex_residues (ex_atoms 10) [''ALA'', ''GLY'', ''SER''] [1, 5, 9]))))
     = [1, 1, 1, 1, 2, 2, 2, 2, 3, 3]
   \<and> map resid (atoms (snd (assignResidues
      (ex_residues (ex_atoms 10) [''ALA'', ''GLY'', ''SER''] [1, 5, 9]))))
     \<noteq> [0, 0, 0, 0, 1, 1, 1, 1, 2, 2]"
  by (simp add: assignResidues_def residue_loop.simps stamp_range.simps stamp_tail.simps
      uint_dec_def ex_residues_def ex_atoms_def ex_atom0_def upt_conv_Cons)

lemma uint_dec_pos: "1 \<le> j \<Longrightarrow> j < 4294967296 \<Longrightarrow> uint_dec j = j - 1"
proof -
  assume a: "1 \<le> j" "j < 4294967296"
  then have e: "j + 4294967295 = (j - 1) + 4294967296" by arith
  have "(j - 1 + 4294967296) mod 4294967296 = (j - 1) mod 4294967296"
    by (rule mod_add_self2)
  then show ?thesis
    unfolding uint_dec_def e using a by simp
qed

lemma stamp_range_spec:
  assumes "1 \<le> j" and "hi \<le> length as + 1" and "length as < 4294967295"
  shows "\<exists>as'. stamp_range j hi c nm as = (None, as') \<and> length as' = length as \<and>
     (\<forall>k < length as. as' ! k =
        (if j \<le> k + 1 \<and> k + 1 < hi then (as ! k)\<lparr>resid := c, resname := nm\<rparr> else as ! k))"
  using assms
proof (induction j hi c nm as rule: stamp_range.induct)
  case (1 j hi c nm as)
  show ?case
  proof (cases "j < hi")
    case False
    then show ?thesis by (auto simp add: stamp_range.simps [of j hi])
  next
    case True
    have d: "uint_dec j = j - 1"
      using True "1.prems" by (intro uint_dec_pos) simp_all
    have r: "j - 1 < length as" using True "1.prems" by simp
    let ?as1 = "as[j - 1 := (as ! (j - 1))\<lparr>resid := c, resname := nm\<rparr>]"
    have "\<exists>as'. stamp_range (j + 1) hi c nm ?as1 = (None, as') \<and> length as' = length ?as1 \<and>
       (\<forall>k < length ?as1. as' ! k =
          (if j + 1 \<le> k + 1 \<and> k + 1 < hi then (?as1 ! k)\<lparr>resid := c, resname := nm\<rparr>
           else ?as1 ! k))"
      using "1.IH" [OF True, unfolded d, OF r] "1.prems" by simp
    then obtain as' where s: "stamp_range (j + 1) hi c nm ?as1 = (None, as')"
      and l: "length as' = length as"
      and p: "\<forall>k < length as. as' ! k =
          (if j + 1 \<le> k + 1 \<and> k + 1 < hi then (?as1 ! k)\<lparr>resid := c, resname := nm\<rparr>
           else ?as1 ! k)"
      by auto
    have e: "stamp_range j hi c nm as = (None, as')"
      using True d r s by (simp add: stamp_range.simps [of j hi])
    have "as' ! k =
        (if j \<le> k + 1 \<and> k + 1 < hi then (as ! k)\<lparr>resid := c, resname := nm\<rparr> else as ! k)"
      if k: "k < length as" for k
    proof (cases "k = j - 1")
      case True
      then show ?thesis using p k r \<open>j < hi\<close> "1.prems"(1) by simp
    next
      case False
      then have "?as1 ! k = as ! k" by simp
      moreover have "j + 1 \<le> k + 1 \<longleftrightarrow> j \<le> k + 1" using False "1.prems"(1) by arith
      ultimately show ?thesis using p k by simp
    qed
    then show ?thesis using e l by blast
  qed
qed

lemma stamp_tail_spec:
  assumes "n \<le> length as"
  shows "\<exists>as'. stamp_tail j n c nm as = (None, as') \<and> length as' = length as \<and>
     (\<forall>k < length as. as' ! k =
        (if j \<le> k \<and> k < n then (as ! k)\<lparr>resid := c, resname := nm\<rparr> else as ! k))"
  using assms
proof (induction j n c nm as rule: stamp_tail.induct)
  case (1 j n c nm as)
  show ?case
  proof (cases "j < n")
    case False
    then show ?thesis by (auto simp add: stamp_tail.simps [of j n])
  next
    case True
    have r: "j < length as" using True "1.prems" by simp
    let ?as1 = "as[j := (as ! j)\<lparr>resid := c, resname := nm\<rparr>]"
    have "\<exists>as'. stamp_tail (j + 1) n c nm ?as1 = (None, as') \<and> length as' = length ?as1 \<and>
       (\<forall>k < length ?as1. as' ! k =
          (if j + 1 \<le> k \<and> k < n then (?as1 ! k)\<lparr>resid := c, resname := nm\<rparr> else ?as1 ! k))"
      using "1.IH" [OF True r] "1.prems" by simp
    then obtain as' where s: "stamp_tail (j + 1) n c nm ?as1 = (None, as')"
      and l: "length as' = length as"
      and p: "\<forall>k < length as. as' ! k =
          (if j + 1 \<le> k \<and> k < n then (?as1 ! k)\<lparr>resid := c, resname := nm\<rparr> else ?as1 ! k)"
      by auto
    have e: "stamp_tail j n c nm as = (None, as')"
      using True r s by (simp add: stamp_tail.simps [of j n])
    have "as' ! k =
        (if j \<le> k \<and> k < n then (as ! k)\<lparr>resid := c, resname := nm\<rparr> else as ! k)"
      if k: "k < length as" for k
    proof (cases "k = j")
      case True
      then show ?thesis using p k r \<open>j < n\<close> by simp
    next
      case False
      then have "?as1 ! k = as ! k" by simp
      moreover have "j + 1 \<le> k \<longleftrightarrow> j \<le> k" using False by arith
      ultimately show ?thesis using p k by simp
    qed
    then show ?thesis using e l by blast
  qed
qed


lemma residue_loop_spec:
  assumes n: "1 \<le> n" "n < 4294967296" and ll: "length labels = n" and lp: "length ptrs = n"
    and so: "sorted ptrs" and p0: "1 \<le> ptrs ! 0"
  shows "i \<le> n - 1 \<Longrightarrow> ptrs ! (n - 1) \<le> length as + 1 \<Longrightarrow> length as < 4294967295 \<Longrightarrow>
     c + int (n - 1 - i) < 2147483647 \<Longrightarrow>
     \<exists>as'. residue_loop n labels ptrs i c as = (None, n - 1, c + int (n - 1 - i), as') \<and>
       length as' = length as \<and>
       (\<forall>i' k. i \<le> i' \<and> i' < n - 1 \<and> k < length as \<and> ptrs ! i' \<le> k + 1 \<and>
           k + 1 < ptrs ! (i' + 1) \<longrightarrow>
           as' ! k = (as ! k)\<lparr>resid := c + 1 + int (i' - i), resname := labels ! i'\<rparr>) \<and>
       (\<forall>k < length as. k + 1 < ptrs ! i \<or> ptrs ! (n - 1) \<le> k + 1 \<longrightarrow> as' ! k = as ! k)"
proof (induction m \<equiv> "n - 1 - i" arbitrary: i c as)
  case 0
  then have i: "i = n - 1" by simp
  have "uint_dec n = n - 1" using n by (rule uint_dec_pos)
  then have ni: "\<not> i < uint_dec n" using i by simp
  have "residue_loop n labels ptrs i c as = (None, i, c, as)"
    by (subst residue_loop.simps) (simp add: ni)
  then show ?case using i by auto
next
  case (Suc m)
  then have i: "i < n - 1" and m: "m = n - 1 - (i + 1)" by simp_all
  have u: "uint_dec n = n - 1" using n by (rule uint_dec_pos)
  have mono: "ptrs ! a \<le> ptrs ! b" if "a \<le> b" "b < n" for a b
    using so that lp by (simp add: sorted_nth_mono)
  have b1: "i < n" "i + 1 \<le> n - 1" "n - 1 < n" using i by simp_all
  have lo: "1 \<le> ptrs ! i" using p0 mono [OF _ b1(1), of 0] by simp
  have hi: "ptrs ! (i + 1) \<le> length as + 1"
    using mono [OF b1(2,3)] Suc.prems(2) by simp
  obtain as1 where s1: "stamp_range (ptrs ! i) (ptrs ! (i + 1)) (c + 1) (labels ! i) as = (None, as1)"
    and l1: "length as1 = length as"
    and q1: "\<forall>k < length as. as1 ! k =
        (if ptrs ! i \<le> k + 1 \<and> k + 1 < ptrs ! (i + 1)
         then (as ! k)\<lparr>resid := c + 1, resname := labels ! i\<rparr> else as ! k)"
    using stamp_range_spec [OF lo hi Suc.prems(3), of "c + 1" "labels ! i"] by blast
  have "\<exists>as'. residue_loop n labels ptrs (i + 1) (c + 1) as1 =
         (None, n - 1, (c + 1) + int (n - 1 - (i + 1)), as') \<and>
       length as' = length as1 \<and>
       (\<forall>i' k. i + 1 \<le> i' \<and> i' < n - 1 \<and> k < length as1 \<and> ptrs ! i' \<le> k + 1 \<and>
           k + 1 < ptrs ! (i' + 1) \<longrightarrow>
           as' ! k = (as1 ! k)\<lparr>resid := (c + 1) + 1 + int (i' - (i + 1)), resname := labels ! i'\<rparr>) \<and>
       (\<forall>k < length as1. k + 1 < ptrs ! (i + 1) \<or> ptrs ! (n - 1) \<le> k + 1 \<longrightarrow> as' ! k = as1 ! k)"
    using Suc.hyps(1) [OF m, of as1 "c + 1"] i Suc.prems(2,3,4) l1 by simp
  then obtain as' where
    s2: "residue_loop n labels ptrs (i + 1) (c + 1) as1 =
         (None, n - 1, (c + 1) + int (n - 1 - (i + 1)), as')"
    and l2: "length as' = length as"
    and q2: "\<And>i' k. i + 1 \<le> i' \<Longrightarrow> i' < n - 1 \<Longrightarrow> k < length as \<Longrightarrow> ptrs ! i' \<le> k + 1 \<Longrightarrow>
           k + 1 < ptrs ! (i' + 1) \<Longrightarrow>
           as' ! k = (as1 ! k)\<lparr>resid := (c + 1) + 1 + int (i' - (i + 1)), resname := labels ! i'\<rparr>"
    and q3: "\<And>k. k < length as \<Longrightarrow> k + 1 < ptrs ! (i + 1) \<or> ptrs ! (n - 1) \<le> k + 1 \<Longrightarrow>
           as' ! k = as1 ! k"
    using l1 by auto
  have e: "residue_loop n labels ptrs i c as = (None, n - 1, c + int (n - 1 - i), as')"
  proof -
    have "c + 1 + int (n - 1 - (i + 1)) = c + int (n - 1 - i)" using i by simp
    moreover have "c \<noteq> 2147483647" using i Suc.prems(4) by simp
    ultimately show ?thesis
      using i u ll lp s1 s2 by (simp add: residue_loop.simps [of n labels ptrs i])
  qed
  have a: "as' ! k = (as ! k)\<lparr>resid := c + 1 + int (i' - i), resname := labels ! i'\<rparr>"
    if h: "i \<le> i'" "i' < n - 1" "k < length as" "ptrs ! i' \<le> k + 1" "k + 1 < ptrs ! (i' + 1)"
    for i' k
  proof (cases "i' = i")
    case True
    then show ?thesis using h q1 q3 [of k] by simp
  next
    case False
    then have g: "i + 1 \<le> i'" using h(1) by simp
    have "i' < n" using h(2) by simp
    then have "ptrs ! (i + 1) \<le> ptrs ! i'" using mono [OF g] by simp
    then have "as1 ! k = as ! k" using q1 h(3,4) by simp
    moreover have "c + 1 + 1 + int (i' - (i + 1)) = c + 1 + int (i' - i)" using g by simp
    ultimately show ?thesis using q2 [OF g h(2-5)] by simp
  qed
  have b: "as' ! k = as ! k"
    if h: "k < length as" "k + 1 < ptrs ! i \<or> ptrs ! (n - 1) \<le> k + 1" for k
  proof -
    have "i \<le> i + 1" "i + 1 < n" using i by simp_all
    then have m1: "ptrs ! i \<le> ptrs ! (i + 1)" "ptrs ! (i + 1) \<le> ptrs ! (n - 1)"
      using mono [of i "i + 1"] mono [OF b1(2,3)] by simp_all
    then have "as' ! k = as1 ! k" using q3 [of k] h by auto
    moreover have "as1 ! k = as ! k" using q1 h m1 by auto
    ultimately show ?thesis by simp
  qed
  show ?case using e l2 a b by blast
qed


lemma assignResidues_spec:
  assumes n1': "1 \<le> nres st" and nb: "nres st \<le> 2147483647"
    and ll: "length (residue_labels st) = nres st"
    and lp: "length (residue_pointers st) = nres st"
    and so: "sorted (residue_pointers st)" and p0: "1 \<le> residue_pointers st ! 0"
    and pn: "residue_pointers st ! (nres st - 1) \<le> natoms st + 1"
    and na: "natoms st = length (atoms st)" "natoms st < 4294967295"
  shows "\<exists>as'. assignResidues st = (None, st\<lparr>atoms := as'\<rparr>) \<and> length as' = natoms st \<and>
     (\<forall>i k. i + 1 < nres st \<and> k < natoms st \<and> residue_pointers st ! i \<le> k + 1 \<and>
         k + 1 < residue_pointers st ! (i + 1) \<longrightarrow>
         as' ! k = (atoms st ! k)\<lparr>resid := int i + 1, resname := residue_labels st ! i\<rparr>) \<and>
     (\<forall>k. k < natoms st \<and> residue_pointers st ! (nres st - 1) \<le> k + 1 \<longrightarrow>
         as' ! k = (atoms st ! k)\<lparr>resid := int (nres st),
                                  resname := residue_labels st ! (nres st - 1)\<rparr>) \<and>
     (\<forall>k. k < natoms st \<and> k + 1 < residue_pointers st ! 0 \<longrightarrow> as' ! k = atoms st ! k)"
proof -
  let ?n = "nres st" and ?ls = "residue_labels st" and ?ps = "residue_pointers st"
  let ?as = "atoms st"
  have n: "1 \<le> ?n" "?n < 4294967296" using n1' nb by simp_all
  have cb: "0 + int (?n - 1 - 0) < 2147483647" using n1' nb by simp
  have pn': "?ps ! (?n - 1) \<le> length ?as + 1" and la: "length ?as < 4294967295"
    using pn na by simp_all
  obtain as1 where s1: "residue_loop ?n ?ls ?ps 0 0 ?as = (None, ?n - 1, 0 + int (?n - 1 - 0), as1)"
    and l1: "length as1 = length ?as"
    and q1: "\<And>i' k. i' < ?n - 1 \<Longrightarrow> k < length ?as \<Longrightarrow> ?ps ! i' \<le> k + 1 \<Longrightarrow>
           k + 1 < ?ps ! (i' + 1) \<Longrightarrow>
           as1 ! k = (?as ! k)\<lparr>resid := 0 + 1 + int (i' - 0), resname := ?ls ! i'\<rparr>"
    and q2: "\<And>k. k < length ?as \<Longrightarrow> k + 1 < ?ps ! 0 \<or> ?ps ! (?n - 1) \<le> k + 1 \<Longrightarrow>
           as1 ! k = ?as ! k"
    using residue_loop_spec [OF n ll lp so p0 _ pn' la cb] by auto
  have mono: "?ps ! a \<le> ?ps ! b" if "a \<le> b" "b < ?n" for a b
    using so that lp by (simp add: sorted_nth_mono)
  have n1: "?n - 1 < ?n" using n by simp
  have last1: "1 \<le> ?ps ! (?n - 1)" using p0 mono [OF _ n1, of 0] by simp
  have lastb: "?ps ! (?n - 1) < 4294967296" using pn na by simp
  have d: "uint_dec (?ps ! (?n - 1)) = ?ps ! (?n - 1) - 1"
    using last1 lastb by (rule uint_dec_pos)
  have nl: "natoms st \<le> length as1" using na l1 by simp
  obtain as2 where s2: "stamp_tail (?ps ! (?n - 1) - 1) (natoms st) (int (?n - 1) + 1)
        (?ls ! (?n - 1)) as1 = (None, as2)"
    and l2: "length as2 = length as1"
    and q3: "\<forall>k < length as1. as2 ! k =
        (if ?ps ! (?n - 1) - 1 \<le> k \<and> k < natoms st
         then (as1 ! k)\<lparr>resid := int (?n - 1) + 1, resname := ?ls ! (?n - 1)\<rparr> else as1 ! k)"
    using stamp_tail_spec [OF nl] by blast
  have co: "int (?n - 1) \<noteq> 2147483647" using n1' nb by simp
  have e: "assignResidues st = (None, st\<lparr>atoms := as2\<rparr>)"
    using s1 s2 d ll lp n1 co by (simp add: assignResidues_def)
  have c: "int (?n - 1) + 1 = int ?n" using n by simp
  have a: "as2 ! k = (?as ! k)\<lparr>resid := int i + 1, resname := ?ls ! i\<rparr>"
    if h: "i + 1 < ?n" "k < natoms st" "?ps ! i \<le> k + 1" "k + 1 < ?ps ! (i + 1)" for i k
  proof -
    have "i + 1 \<le> ?n - 1" using h(1) by simp
    then have "?ps ! (i + 1) \<le> ?ps ! (?n - 1)" using mono n1 by blast
    then have "\<not> ?ps ! (?n - 1) - 1 \<le> k" using h(4) by simp
    then have "as2 ! k = as1 ! k" using q3 h(2) na l1 by simp
    moreover have "i < ?n - 1" "k < length ?as" using h(1,2) na by simp_all
    ultimately show ?thesis using q1 [of i k] h(3,4) by simp
  qed
  have b: "as2 ! k = (?as ! k)\<lparr>resid := int ?n, resname := ?ls ! (?n - 1)\<rparr>"
    if h: "k < natoms st" "?ps ! (?n - 1) \<le> k + 1" for k
  proof -
    have "?ps ! (?n - 1) - 1 \<le> k" using h(2) by simp
    then have "as2 ! k = (as1 ! k)\<lparr>resid := int (?n - 1) + 1, resname := ?ls ! (?n - 1)\<rparr>"
      using q3 h(1) na l1 by simp
    moreover have "as1 ! k = ?as ! k" using q2 [of k] h na by simp
    ultimately show ?thesis using c by simp
  qed
  have z: "as2 ! k = ?as ! k" if h: "k < natoms st" "k + 1 < ?ps ! 0" for k
  proof -
    have "?ps ! 0 \<le> ?ps ! (?n - 1)" using mono [OF _ n1, of 0] by simp
    then have "\<not> ?ps ! (?n - 1) - 1 \<le> k" using h(2) by simp
    then have "as2 ! k = as1 ! k" using q3 h(1) na l1 by simp
    then show ?thesis using q2 [of k] h na by simp
  qed
  have "length as2 = natoms st" using l2 l1 na by simp
  then show ?thesis using e a b z by blast
qed

text \<open>
  C1, amended: for any ten atoms, three residue labels and the residue pointers
  \<open>[1, 5, 9]\<close>, \<open>assignResidues\<close> returns normally and stamps atoms 1-4 with residue id 1
  and the first label, atoms 5-8 with residue id 2 and the second label, and atoms 9-10,
  every atom from the last pointer to the end of the atom array, with residue id 3 and the
  third label; nothing else of the state changes. In general, for \<open>nres \<ge> 1\<close> residues,
  at most \<open>2 ^ 31 - 1\<close> of them so that the \<^verbatim>\<open>int\<close> residue id does not overflow,
  whose pointers are in ascending order, start at 1 or later and end at most one past the
  last atom, \<open>assignResidues\<close> returns normally; residue \<open>i\<close> of the residues \<open>0..n-2\<close>
  gives its id \<open>i + 1\<close> and its label to the atoms whose 1-based positions lie in the
  half-open range from \<open>pointer[i]\<close> to \<open>pointer[i+1]\<close>; the last residue gives its id
  \<open>n\<close> and its label to every atom from its pointer to the end of the atom array; and the
  atoms before the first pointer are left as they were.
\<close>

theorem assignResidues_ranges:
  "assignResidues
     \<lparr>rdr = r, atoms = [a1, a2, a3, a4, a5, a6, a7, a8, a9, a10], natoms = 10, nbonh = h,
      mbona = m, nres = 3, residue_labels = [l0, l1, l2], residue_pointers = [1, 5, 9],
      title = t, amoeba_regular_bond_num_list = q\<rparr>
   = (None,
     \<lparr>rdr = r,
      atoms = [a1\<lparr>resid := 1, resname := l0\<rparr>, a2\<lparr>resid := 1, resname := l0\<rparr>,
               a3\<lparr>resid := 1, resname := l0\<rparr>, a4\<lparr>resid := 1, resname := l0\<rparr>,
               a5\<lparr>resid := 2, resname := l1\<rparr>, a6\<lparr>resid := 2, resname := l1\<rparr>,
               a7\<lparr>resid := 2, resname := l1\<rparr>, a8\<lparr>resid := 2, resname := l1\<rparr>,
               a9\<lparr>resid := 3, resname := l2\<rparr>, a10\<lparr>resid := 3, resname := l2\<rparr>],
      natoms = 10, nbonh = h, mbona = m, nres = 3, residue_labels = [l0, l1, l2],
      residue_pointers = [1, 5, 9], title = t, amoeba_regular_bond_num_list = q\<rparr>)
   \<and> (1 \<le> nres st \<and> nres st \<le> 2147483647 \<and> length (residue_labels st) = nres st \<and>
       length (residue_pointers st) = nres st \<and> sorted (residue_pointers st) \<and>
       1 \<le> residue_pointers st ! 0 \<and> residue_pointers st ! (nres st - 1) \<le> natoms st + 1 \<and>
       natoms st = length (atoms st) \<and> natoms st < 4294967295 \<longrightarrow>
       (\<exists>as'. assignResidues st = (None, st\<lparr>atoms := as'\<rparr>) \<and> length as' = natoms st \<and>
          (\<forall>i k. i + 1 < nres st \<and> k < natoms st \<and> residue_pointers st ! i \<le> k + 1 \<and>
              k + 1 < residue_pointers st ! (i + 1) \<longrightarrow>
              as' ! k = (atoms st ! k)\<lparr>resid := int i + 1, resname := residue_labels st ! i\<rparr>) \<and>
          (\<forall>k. k < natoms st \<and> residue_pointers st ! (nres st - 1) \<le> k + 1 \<longrightarrow>
              as' ! k = (atoms st ! k)\<lparr>resid := int (nres st),
                                       resname := residue_labels st ! (nres st - 1)\<rparr>) \<and>
          (\<forall>k. k < natoms st \<and> k + 1 < residue_pointers st ! 0 \<longrightarrow> as' ! k = atoms st ! k)))"
proof (intro conjI impI)
  show "assignResidues
     \<lparr>rdr = r, atoms = [a1, a2, a3, a4, a5, a6, a7, a8, a9, a10], natoms = 10, nbonh = h,
      mbona = m, nres = 3, residue_labels = [l0, l1, l2], residue_pointers = [1, 5, 9],
      title = t, amoeba_regular_bond_num_list = q\<rparr>
   = (None,
     \<lparr>rdr = r,
      atoms = [a1\<lparr>resid := 1, resname := l0\<rparr>, a2\<lparr>resid := 1, resname := l0\<rparr>,
               a3\<lparr>resid := 1, resname := l0\<rparr>, a4\<lparr>resid := 1, resname := l0\<rparr>,
               a5\<lparr>resid := 2, resname := l1\<rparr>, a6\<lparr>resid := 2, resname := l1\<rparr>,
               a7\<lparr>resid := 2, resname := l1\<rparr>, a8\<lparr>resid := 2, resname := l1\<rparr>,
               a9\<lparr>resid := 3, resname := l2\<rparr>, a10\<lparr>resid := 3, resname := l2\<rparr>],
      natoms = 10, nbonh = h, mbona = m, nres = 3, residue_labels = [l0, l1, l2],
      residue_pointers = [1, 5, 9], title = t, amoeba_regular_bond_num_list = q\<rparr>)"
    by (simp add: assignResidues_def residue_loop.simps stamp_range.simps stamp_tail.simps
        uint_dec_def)
next
  assume "1 \<le> nres st \<and> nres st \<le> 2147483647 \<and> length (residue_labels st) = nres st \<and>
       length (residue_pointers st) = nres st \<and> sorted (residue_pointers st) \<and>
       1 \<le> residue_pointers st ! 0 \<and> residue_pointers st ! (nres st - 1) \<le> natoms st + 1 \<and>
       natoms st = length (atoms st) \<and> natoms st < 4294967295"
  then show "\<exists>as'. assignResidues st = (None, st\<lparr>atoms := as'\<rparr>) \<and> length as' = natoms st \<and>
          (\<forall>i k. i + 1 < nres st \<and> k < natoms st \<and> residue_pointers st ! i \<le> k + 1 \<and>
              k + 1 < residue_pointers st ! (i + 1) \<longrightarrow>
              as' ! k = (atoms st ! k)\<lparr>resid := int i + 1, resname := residue_labels st ! i\<rparr>) \<and>
          (\<forall>k. k < natoms st \<and> residue_pointers st ! (nres st - 1) \<le> k + 1 \<longrightarrow>
              as' ! k = (atoms st ! k)\<lparr>resid := int (nres st),
                                       resname := residue_labels st ! (nres st - 1)\<rparr>) \<and>
          (\<forall>k. k < natoms st \<and> k + 1 < residue_pointers st ! 0 \<longrightarrow> as' ! k = atoms st ! k)"
    using assignResidues_spec [of st] by simp
qed

theorem assignResidues_ranges_witness:
  "\<exists>as'. assignResidues (ex_residues (ex_atoms 10) [''ALA'', ''GLY'', ''SER''] [1, 5, 9]) =
       (None, (ex_residues (ex_atoms 10) [''ALA'', ''GLY'', ''SER''] [1, 5, 9])\<lparr>atoms := as'\<rparr>)
     \<and> as' ! 3 = (ex_atoms 10 ! 3)\<lparr>resid := 1, resname := ''ALA''\<rparr>
     \<and> as' ! 4 = (ex_atoms 10 ! 4)\<lparr>resid := 2, resname := ''GLY''\<rparr>
     \<and> as' ! 9 = (ex_atoms 10 ! 9)\<lparr>resid := 3, resname := ''SER''\<rparr>"
proof -
  let ?st = "ex_residues (ex_atoms 10) [''ALA'', ''GLY'', ''SER''] [1, 5, 9]"
  have h: "1 \<le> nres ?st \<and> nres ?st \<le> 2147483647 \<and> length (residue_labels ?st) = nres ?st \<and>
       length (residue_pointers ?st) = nres ?st \<and> sorted (residue_pointers ?st) \<and>
       1 \<le> residue_pointers ?st ! 0 \<and> residue_pointers ?st ! (nres ?st - 1) \<le> natoms ?st + 1 \<and>
       natoms ?st = length (atoms ?st) \<and> natoms ?st < 4294967295"
    by (simp add: ex_residues_def ex_atoms_def)
  note g = assignResidues_ranges [where st = ?st, THEN conjunct2, THEN mp, OF h]
  then obtain as' where e: "assignResidues ?st = (None, ?st\<lparr>atoms := as'\<rparr>)"
    and a': "\<forall>i k. i + 1 < nres ?st \<and> k < natoms ?st \<and> residue_pointers ?st ! i \<le> k + 1 \<and>
              k + 1 < residue_pointers ?st ! (i + 1) \<longrightarrow>
              as' ! k = (atoms ?st ! k)\<lparr>resid := int i + 1, resname := residue_labels ?st ! i\<rparr>"
    and b': "\<forall>k. k < natoms ?st \<and> residue_pointers ?st ! (nres ?st - 1) \<le> k + 1 \<longrightarrow>
              as' ! k = (atoms ?st ! k)\<lparr>resid := int (nres ?st),
                                        resname := residue_labels ?st ! (nres ?st - 1)\<rparr>"
    by blast
  note a = a' [rule_format] and b = b' [rule_format]
  have "as' ! 3 = (ex_atoms 10 ! 3)\<lparr>resid := 1, resname := ''ALA''\<rparr>"
    using a [of 0 3] by (simp add: ex_residues_def ex_atoms_def)
  moreover have "as' ! 4 = (ex_atoms 10 ! 4)\<lparr>resid := 2, resname := ''GLY''\<rparr>"
    using a [of 1 4] by (simp add: ex_residues_def ex_atoms_def)
  moreover have "as' ! 9 = (ex_atoms 10 ! 9)\<lparr>resid := 3, resname := ''SER''\<rparr>"
    using b [of 9] by (simp add: ex_residues_def ex_atoms_def)
  ultimately show ?thesis using e by blast
qed

text \<open>
  C10: with \<open>nres = 0\<close> and empty residue label and pointer arrays, the size test of
  \<open>assignResidues\<close> passes, the loop bound \<open>nres - 1\<close> wraps to \<open>2 ^ 32 - 1\<close>, and the
  first iteration reads \<open>residue_labels[0]\<close> outside the empty vector: the result is the
  out-of-range error, not a normal return. Hence \<open>assignResidues\<close> returns normally only
  if \<open>nres \<ge> 1\<close>.
\<close>

theorem assignResidues_zero_residues:
  "(nres st = 0 \<and> residue_labels st = [] \<and> residue_pointers st = []
      \<longrightarrow> uint_dec (nres st) = 4294967295 \<and> assignResidues st = (Some OutOfRange, st))
   \<and> (fst (assignResidues st) = None \<longrightarrow> 1 \<le> nres st)"
proof -
  have a: "assignResidues st = (Some OutOfRange, st)"
    if "nres st = 0" "residue_labels st = []" "residue_pointers st = []"
    using that by (simp add: assignResidues_def residue_loop.simps uint_dec_def)
  have b: "1 \<le> nres st" if ok: "fst (assignResidues st) = None"
  proof (rule ccontr)
    assume "\<not> 1 \<le> nres st"
    then have z: "nres st = 0" by simp
    show False
    proof (cases "residue_pointers st = [] \<and> residue_labels st = []")
      case True
      with z a have "assignResidues st = (Some OutOfRange, st)" by simp
      with ok show False by simp
    next
      case False
      with z have "assignResidues st = (Some (RuntimeError ''Unable to assign residues.''), st)"
        by (auto simp add: assignResidues_def)
      with ok show False by simp
    qed
  qed
  show ?thesis using a b by (simp add: uint_dec_def)
qed

theorem assignResidues_zero_residues_witness:
  "assignResidues (ex_residues (ex_atoms 2) [] []) = (Some OutOfRange, ex_residues (ex_atoms 2) [] [])
   \<and> fst (assignResidues (ex_residues (ex_atoms 2) [''RES''] [1])) = None
   \<and> 1 \<le> nres (ex_residues (ex_atoms 2) [''RES''] [1])"
proof -
  have h0: "nres (ex_residues (ex_atoms 2) [] []) = 0
      \<and> residue_labels (ex_residues (ex_atoms 2) [] []) = []
      \<and> residue_pointers (ex_residues (ex_atoms 2) [] []) = []"
    by (simp add: ex_residues_def)
  have h1: "fst (assignResidues (ex_residues (ex_atoms 2) [''RES''] [1])) = None"
    by (simp add: assignResidues_def residue_loop.simps stamp_tail.simps uint_dec_def
        ex_residues_def ex_atoms_def upt_conv_Cons)
  show ?thesis
    using assignResidues_zero_residues [of "ex_residues (ex_atoms 2) [] []"]
      assignResidues_zero_residues [of "ex_residues (ex_atoms 2) [''RES''] [1]"] h0 h1
    by blast
qed

section \<open>Section handlers and the atom container\<close>

lemmas fmt_eval = parseFormat_def getNext_def tokenizer_def parse_spec_def try_nXwd_def
  try_nXw_def try_Xw_def try_X_def extract_int_def extract_char_def isspace_def isdigit_def
  digits_val_def digit_val_def store_def Let_def

lemma ex_parseFormat_I:
  "parseFormat ex_fmt0 ''I'' wh (rdr (ex_amber ''%FORMAT(12I6)'' as n)) =
     (Inr (ex_fmt0\<lparr>repeat := 12, type := CHR ''I'', width := 6\<rparr>),
      \<lparr>pending = [], line = ''%FORMAT(12I6)'', lineNumber = 1\<rparr>)"
  by (simp add: fmt_eval ex_amber_def)

lemma build_atoms_eq:
  "build_atoms a0 i n as = as @ map (\<lambda>k. a0\<lparr>atom_id := k + 1\<rparr>) [i..<n]"
proof (induction a0 i n as rule: build_atoms.induct)
  case (1 a0 i n as)
  show ?case
  proof (cases "i < n")
    case True
    then have "build_atoms a0 i n as = build_atoms a0 (i + 1) n (as @ [a0\<lparr>atom_id := i + 1\<rparr>])"
      by (simp add: build_atoms.simps)
    also have "\<dots> = (as @ [a0\<lparr>atom_id := i + 1\<rparr>]) @ map (\<lambda>k. a0\<lparr>atom_id := k + 1\<rparr>) [i + 1..<n]"
      using 1 True by simp
    also have "\<dots> = as @ map (\<lambda>k. a0\<lparr>atom_id := k + 1\<rparr>) [i..<n]"
      using True by (simp add: upt_conv_Cons)
    finally show ?thesis .
  next
    case False
    then show ?thesis by (simp add: build_atoms.simps)
  qed
qed

lemma parsePointers_nonempty:
  assumes "atoms st \<noteq> []"
  shows "fst (parsePointers fmt0 a0 rb st) \<noteq> None"
    and "atoms (snd (parsePointers fmt0 a0 rb st)) = atoms st"
  using assms
  by (auto simp add: parsePointers_def Let_def split: prod.splits sum.splits)

lemma parsePointers_logic_error:
  assumes "atoms st \<noteq> []"
    and "parseFormat fmt0 ''I'' ''pointers'' (rdr st) = (Inr fmt, rd)"
    and "rb (width fmt) rd = (ps, rd')"
    and "11 < length ps"
  shows "fst (parsePointers fmt0 a0 rb st) =
     Some (LogicError ''Internal error: trying to read in an amber parmtop into a non-empty group!'')"
  using assms by (auto simp add: parsePointers_def Let_def)

lemma parsePointers_empty:
  assumes "atoms st = []"
    and "parseFormat fmt0 ''I'' ''pointers'' (rdr st) = (Inr fmt, rd)"
    and "rb (width fmt) rd = (ps, rd')"
    and "11 < length ps"
  shows "parsePointers fmt0 a0 rb st =
     (None, st\<lparr>rdr := rd', natoms := ps ! 0, nbonh := ps ! 2, mbona := ps ! 3, nres := ps ! 11,
              atoms := map (\<lambda>k. a0\<lparr>atom_id := k + 1\<rparr>) [0..<ps ! 0]\<rparr>)"
  using assms by (auto simp add: parsePointers_def Let_def build_atoms_eq)

text \<open>
  C9: on a non-empty atom container \<open>parsePointers\<close> always ends in an error and leaves the
  container as it was; once the format line has parsed and the block holds the twelve
  header entries it reads, that error is the logic error. On an empty container, under the
  same two conditions, it returns normally with exactly \<open>natoms = pointers[0]\<close> atoms, the
  \<open>i\<close>-th of them (0-based) a fresh atom with id \<open>i + 1\<close>.
\<close>

theorem parsePointers_builds_atoms:
  "(atoms st \<noteq> [] \<longrightarrow>
      fst (parsePointers fmt0 a0 rb st) \<noteq> None \<and>
      atoms (snd (parsePointers fmt0 a0 rb st)) = atoms st)
   \<and> (atoms st \<noteq> [] \<and> parseFormat fmt0 ''I'' ''pointers'' (rdr st) = (Inr fmt, rd) \<and>
       rb (width fmt) rd = (ps, rd') \<and> 11 < length ps \<longrightarrow>
      fst (parsePointers fmt0 a0 rb st) =
        Some (LogicError
          ''Internal error: trying to read in an amber parmtop into a non-empty group!''))
   \<and> (atoms st = [] \<and> parseFormat fmt0 ''I'' ''pointers'' (rdr st) = (Inr fmt, rd) \<and>
       rb (width fmt) rd = (ps, rd') \<and> 11 < length ps \<longrightarrow>
      fst (parsePointers fmt0 a0 rb st) = None \<and>
      natoms (snd (parsePointers fmt0 a0 rb st)) = ps ! 0 \<and>
      length (atoms (snd (parsePointers fmt0 a0 rb st))) = ps ! 0 \<and>
      (\<forall>i < ps ! 0. atoms (snd (parsePointers fmt0 a0 rb st)) ! i = a0\<lparr>atom_id := i + 1\<rparr>))"
proof (intro conjI impI)
  assume "atoms st \<noteq> []"
  then show "fst (parsePointers fmt0 a0 rb st) \<noteq> None"
    and "atoms (snd (parsePointers fmt0 a0 rb st)) = atoms st"
    by (rule parsePointers_nonempty)+
next
  assume "atoms st \<noteq> [] \<and> parseFormat fmt0 ''I'' ''pointers'' (rdr st) = (Inr fmt, rd) \<and>
       rb (width fmt) rd = (ps, rd') \<and> 11 < length ps"
  then show "fst (parsePointers fmt0 a0 rb st) =
        Some (LogicError
          ''Internal error: trying to read in an amber parmtop into a non-empty group!'')"
    using parsePointers_logic_error by blast
next
  assume h: "atoms st = [] \<and> parseFormat fmt0 ''I'' ''pointers'' (rdr st) = (Inr fmt, rd) \<and>
       rb (width fmt) rd = (ps, rd') \<and> 11 < length ps"
  have e: "parsePointers fmt0 a0 rb st =
     (None, st\<lparr>rdr := rd', natoms := ps ! 0, nbonh := ps ! 2, mbona := ps ! 3, nres := ps ! 11,
              atoms := map (\<lambda>k. a0\<lparr>atom_id := k + 1\<rparr>) [0..<ps ! 0]\<rparr>)"
    using h parsePointers_empty by blast
  show "fst (parsePointers fmt0 a0 rb st) = None"
    and "natoms (snd (parsePointers fmt0 a0 rb st)) = ps ! 0"
    and "length (atoms (snd (parsePointers fmt0 a0 rb st))) = ps ! 0"
    and "\<forall>i < ps ! 0. atoms (snd (parsePointers fmt0 a0 rb st)) ! i = a0\<lparr>atom_id := i + 1\<rparr>"
    by (simp_all add: e)
qed

theorem parsePointers_builds_atoms_witness:
  "fst (parsePointers ex_fmt0 ex_atom0 (ex_block [2, 0, 1, 0, 0, 0, 0, 0, 0, 0, 0, 1])
          (ex_amber ''%FORMAT(12I6)'' [ex_atom0] 1)) =
     Some (LogicError ''Internal error: trying to read in an amber parmtop into a non-empty group!'')
   \<and> atoms (snd (parsePointers ex_fmt0 ex_atom0 (ex_block [2, 0, 1, 0, 0, 0, 0, 0, 0, 0, 0, 1])
          (ex_amber ''%FORMAT(12I6)'' [ex_atom0] 1))) = [ex_atom0]
   \<and> fst (parsePointers ex_fmt0 ex_atom0 (ex_block [2, 0, 1, 0, 0, 0, 0, 0, 0, 0, 0, 1])
          (ex_amber ''%FORMAT(12I6)'' [] 0)) = None
   \<and> atoms (snd (parsePointers ex_fmt0 ex_atom0 (ex_block [2, 0, 1, 0, 0, 0, 0, 0, 0, 0, 0, 1])
          (ex_amber ''%FORMAT(12I6)'' [] 0))) ! 1 = ex_atom0\<lparr>atom_id := 2\<rparr>"
proof -
  let ?ps = "[2, 0, 1, 0, 0, 0, 0, 0, 0, 0, 0, 1] :: nat list"
  let ?fmt = "ex_fmt0\<lparr>repeat := 12, type := CHR ''I'', width := 6\<rparr>"
  let ?rd = "\<lparr>pending = [], line = ''%FORMAT(12I6)'', lineNumber = 1\<rparr>"
  have b: "ex_block ?ps (width ?fmt) ?rd = (?ps, ?rd)"
    by (simp add: ex_block_def)
  have l: "11 < length ?ps" by simp
  have a1: "atoms (ex_amber ''%FORMAT(12I6)'' [ex_atom0] 1) \<noteq> []"
    by (simp add: ex_amber_def)
  have a0: "atoms (ex_amber ''%FORMAT(12I6)'' [] 0) = []"
    by (simp add: ex_amber_def)
  note t1 = parsePointers_builds_atoms [of "ex_amber ''%FORMAT(12I6)'' [ex_atom0] 1" ex_fmt0
      ex_atom0 "ex_block ?ps" ?fmt ?rd ?ps ?rd]
  note t0 = parsePointers_builds_atoms [of "ex_amber ''%FORMAT(12I6)'' [] 0" ex_fmt0
      ex_atom0 "ex_block ?ps" ?fmt ?rd ?ps ?rd]
  have c1: "fst (parsePointers ex_fmt0 ex_atom0 (ex_block ?ps)
          (ex_amber ''%FORMAT(12I6)'' [ex_atom0] 1)) =
     Some (LogicError ''Internal error: trying to read in an amber parmtop into a non-empty group!'')"
    using t1 a1 b l ex_parseFormat_I by blast
  have c2: "atoms (snd (parsePointers ex_fmt0 ex_atom0 (ex_block ?ps)
          (ex_amber ''%FORMAT(12I6)'' [ex_atom0] 1))) = atoms (ex_amber ''%FORMAT(12I6)'' [ex_atom0] 1)"
    using t1 a1 by blast
  have c3: "fst (parsePointers ex_fmt0 ex_atom0 (ex_block ?ps)
          (ex_amber ''%FORMAT(12I6)'' [] 0)) = None
     \<and> (\<forall>i < ?ps ! 0. atoms (snd (parsePointers ex_fmt0 ex_atom0 (ex_block ?ps)
          (ex_amber ''%FORMAT(12I6)'' [] 0))) ! i = ex_atom0\<lparr>atom_id := i + 1\<rparr>)"
    using t0 a0 b l ex_parseFormat_I by blast
  then have c4: "atoms (snd (parsePointers ex_fmt0 ex_atom0 (ex_block ?ps)
          (ex_amber ''%FORMAT(12I6)'' [] 0))) ! 1 = ex_atom0\<lparr>atom_id := 1 + 1\<rparr>"
    by simp
  show ?thesis using c1 c2 c3 c4 by (simp add: ex_amber_def)
qed

lemma assign_loop_length:
  "assign_loop upd i vals as = (e, as') \<Longrightarrow> length as' = length as"
proof (induction upd i vals as rule: assign_loop.induct)
  case (1 upd i vals as)
  show ?case
  proof (cases "i < length vals \<and> i < length as")
    case True
    then show ?thesis using 1 by (simp add: assign_loop.simps [of upd i vals as])
  next
    case False
    then show ?thesis using "1.prems" by (auto simp add: assign_loop.simps [of upd i vals as] split: if_splits)
  qed
qed

lemma bond_pair_length: "length (bond_pair ia ib as) = length as"
  by (simp add: bond_pair_def Let_def)

lemma bond_loop_length_snd:
  "length (snd (bond_loop idx i bl as)) = length as"
proof (induction idx i bl as rule: bond_loop.induct)
  case (1 idx i bl as)
  show ?case
    using 1 by (subst bond_loop.simps) (auto simp add: bond_pair_length)
qed

lemma bond_loop_length:
  "bond_loop idx i bl as = (e, as') \<Longrightarrow> length as' = length as"
  using bond_loop_length_snd [of idx i bl as] by simp

lemma parseCharges_count:
  "length (atoms (snd (parseCharges fmt0 rb st))) = length (atoms st)
   \<and> natoms (snd (parseCharges fmt0 rb st)) = natoms st"
  by (auto simp add: parseCharges_def Let_def split: prod.splits sum.splits dest: assign_loop_length)

lemma parseMasses_count:
  "length (atoms (snd (parseMasses fmt0 rb st))) = length (atoms st)
   \<and> natoms (snd (parseMasses fmt0 rb st)) = natoms st"
  by (auto simp add: parseMasses_def Let_def split: prod.splits sum.splits dest: assign_loop_length)

lemma parseAtomNames_count:
  "length (atoms (snd (parseAtomNames fmt0 rb st))) = length (atoms st)
   \<and> natoms (snd (parseAtomNames fmt0 rb st)) = natoms st"
  by (auto simp add: parseAtomNames_def Let_def split: prod.splits sum.splits dest: assign_loop_length)

lemma parseResidueLabels_count:
  "atoms (snd (parseResidueLabels fmt0 rb st)) = atoms st
   \<and> natoms (snd (parseResidueLabels fmt0 rb st)) = natoms st"
  by (auto simp add: parseResidueLabels_def Let_def split: prod.splits sum.splits)

lemma parseResiduePointers_count:
  "atoms (snd (parseResiduePointers fmt0 rb st)) = atoms st
   \<and> natoms (snd (parseResiduePointers fmt0 rb st)) = natoms st"
  by (auto simp add: parseResiduePointers_def Let_def split: prod.splits sum.splits)

lemma parseTitle_count:
  "atoms (snd (parseTitle fmt0 rb st)) = atoms st
   \<and> natoms (snd (parseTitle fmt0 rb st)) = natoms st"
  by (auto simp add: parseTitle_def Let_def split: prod.splits sum.splits)

lemma parseAmoebaRegularBondNumList_count:
  "atoms (snd (parseAmoebaRegularBondNumList fmt0 st)) = atoms st
   \<and> natoms (snd (parseAmoebaRegularBondNumList fmt0 st)) = natoms st"
  by (auto simp add: parseAmoebaRegularBondNumList_def Let_def split: prod.splits sum.splits)

lemma parseBonds_count:
  "length (atoms (snd (parseBonds fmt0 rb n st))) = length (atoms st)
   \<and> natoms (snd (parseBonds fmt0 rb n st)) = natoms st"
  by (auto simp add: parseBonds_def Let_def split: prod.splits sum.splits dest: bond_loop_length)

lemma parseAmoebaRegularBondList_count:
  "length (atoms (snd (parseAmoebaRegularBondList fmt0 rb n st))) = length (atoms st)
   \<and> natoms (snd (parseAmoebaRegularBondList fmt0 rb n st)) = natoms st"
  by (auto simp add: parseAmoebaRegularBondList_def Let_def split: prod.splits sum.splits
      dest: bond_loop_length)

lemma parseAtomNames_mismatch:
  assumes "parseFormat fmt0 ''a'' ''atom names'' (rdr st) = (Inr fmt, rd)"
    and "rb (width fmt) rd = (names, rd')"
    and "length names \<noteq> natoms st"
  shows "parseAtomNames fmt0 rb st =
     (Some (FileParseError ''Error parsing atom names'' (lineNumber rd')), st\<lparr>rdr := rd'\<rparr>)"
  using assms by (simp add: parseAtomNames_def Let_def)

lemma parseCharges_mismatch:
  assumes "parseFormat fmt0 ''EFG'' ''charges'' (rdr st) = (Inr fmt, rd)"
    and "rb (width fmt) rd = (vals, rd')"
    and "length vals \<noteq> length (atoms st)"
  shows "parseCharges fmt0 rb st =
     (Some (FileParseError ''Error parsing charges from amber file'' (lineNumber rd')),
      st\<lparr>rdr := rd'\<rparr>)"
  using assms by (simp add: parseCharges_def Let_def)

lemma parseMasses_mismatch:
  assumes "parseFormat fmt0 ''EFG'' ''masses'' (rdr st) = (Inr fmt, rd)"
    and "rb (width fmt) rd = (vals, rd')"
    and "length vals \<noteq> length (atoms st)"
  shows "parseMasses fmt0 rb st =
     (Some (FileParseError ''Error parsing masses from amber file'' (lineNumber rd')),
      st\<lparr>rdr := rd'\<rparr>)"
  using assms by (simp add: parseMasses_def Let_def)


lemma ex_parseFormat_a:
  "parseFormat ex_fmt0 ''a'' wh (rdr (ex_amber ''%FORMAT(20a4)'' as n)) =
     (Inr (ex_fmt0\<lparr>repeat := 20, type := CHR ''a'', width := 4\<rparr>),
      \<lparr>pending = [], line = ''%FORMAT(20a4)'', lineNumber = 1\<rparr>)"
  by (simp add: fmt_eval ex_amber_def)

lemma ex_parseFormat_E:
  "parseFormat ex_fmt0 ''EFG'' wh (rdr (ex_amber ''%FORMAT(5E16.8)'' as n)) =
     (Inr (ex_fmt0\<lparr>repeat := 5, type := CHR ''E'', width := 16, precision := 8\<rparr>),
      \<lparr>pending = [], line = ''%FORMAT(5E16.8)'', lineNumber = 1\<rparr>)"
  by (simp add: fmt_eval ex_amber_def)

text \<open>
  C7: when the format line of a per-atom section has parsed and the block read for it has a
  number of elements other than the atom count \<open>natoms\<close> declared by POINTERS (which is the
  size of the atom container that \<open>parsePointers\<close> has built), the handlers of atom names,
  charges and masses end in the parse error of their section, and the state they leave
  differs from the one they found in the reader only: no atom has been written. No handler
  of a section other than POINTERS changes the number of atoms or \<open>natoms\<close>, whatever it
  reads, and \<open>parsePointers\<close> itself leaves a non-empty atom container at its size.
\<close>

theorem section_size_mismatch:
  "(parseFormat fmt0 ''a'' ''atom names'' (rdr st) = (Inr fmt, rd) \<and>
    rbs (width fmt) rd = (names, rd') \<and> length names \<noteq> natoms st \<longrightarrow>
      parseAtomNames fmt0 rbs st =
        (Some (FileParseError ''Error parsing atom names'' (lineNumber rd')), st\<lparr>rdr := rd'\<rparr>))
   \<and> (parseFormat fmt0 ''EFG'' ''charges'' (rdr st) = (Inr fmt, rd) \<and>
       rbr (width fmt) rd = (vals, rd') \<and> length (atoms st) = natoms st \<and>
       length vals \<noteq> natoms st \<longrightarrow>
      parseCharges fmt0 rbr st =
        (Some (FileParseError ''Error parsing charges from amber file'' (lineNumber rd')),
         st\<lparr>rdr := rd'\<rparr>))
   \<and> (parseFormat fmt0 ''EFG'' ''masses'' (rdr st) = (Inr fmt, rd) \<and>
       rbr (width fmt) rd = (vals, rd') \<and> length (atoms st) = natoms st \<and>
       length vals \<noteq> natoms st \<longrightarrow>
      parseMasses fmt0 rbr st =
        (Some (FileParseError ''Error parsing masses from amber file'' (lineNumber rd')),
         st\<lparr>rdr := rd'\<rparr>))
   \<and> length (atoms (snd (parseTitle fmt0 rbs st))) = length (atoms st)
   \<and> natoms (snd (parseTitle fmt0 rbs st)) = natoms st
   \<and> length (atoms (snd (parseAtomNames fmt0 rbs st))) = length (atoms st)
   \<and> natoms (snd (parseAtomNames fmt0 rbs st)) = natoms st
   \<and> length (atoms (snd (parseCharges fmt0 rbr st))) = length (atoms st)
   \<and> natoms (snd (parseCharges fmt0 rbr st)) = natoms st
   \<and> length (atoms (snd (parseMasses fmt0 rbr st))) = length (atoms st)
   \<and> natoms (snd (parseMasses fmt0 rbr st)) = natoms st
   \<and> length (atoms (snd (parseResidueLabels fmt0 rbs st))) = length (atoms st)
   \<and> natoms (snd (parseResidueLabels fmt0 rbs st)) = natoms st
   \<and> length (atoms (snd (parseResiduePointers fmt0 rbn st))) = length (atoms st)
   \<and> natoms (snd (parseResiduePointers fmt0 rbn st)) = natoms st
   \<and> length (atoms (snd (parseBonds fmt0 rbi n st))) = length (atoms st)
   \<and> natoms (snd (parseBonds fmt0 rbi n st)) = natoms st
   \<and> length (atoms (snd (parseAmoebaRegularBondNumList fmt0 st))) = length (atoms st)
   \<and> natoms (snd (parseAmoebaRegularBondNumList fmt0 st)) = natoms st
   \<and> length (atoms (snd (parseAmoebaRegularBondList fmt0 rbi n st))) = length (atoms st)
   \<and> natoms (snd (parseAmoebaRegularBondList fmt0 rbi n st)) = natoms st
   \<and> (atoms st \<noteq> [] \<longrightarrow>
        length (atoms (snd (parsePointers fmt0 a0 rbn st))) = length (atoms st))"
proof -
  have n: "parseFormat fmt0 ''a'' ''atom names'' (rdr st) = (Inr fmt, rd) \<and>
    rbs (width fmt) rd = (names, rd') \<and> length names \<noteq> natoms st \<longrightarrow>
      parseAtomNames fmt0 rbs st =
        (Some (FileParseError ''Error parsing atom names'' (lineNumber rd')), st\<lparr>rdr := rd'\<rparr>)"
    using parseAtomNames_mismatch by blast
  have c: "parseFormat fmt0 ''EFG'' ''charges'' (rdr st) = (Inr fmt, rd) \<and>
       rbr (width fmt) rd = (vals, rd') \<and> length (atoms st) = natoms st \<and>
       length vals \<noteq> natoms st \<longrightarrow>
      parseCharges fmt0 rbr st =
        (Some (FileParseError ''Error parsing charges from amber file'' (lineNumber rd')),
         st\<lparr>rdr := rd'\<rparr>)"
    using parseCharges_mismatch [of fmt0 st fmt rd rbr vals rd'] by simp
  have m: "parseFormat fmt0 ''EFG'' ''masses'' (rdr st) = (Inr fmt, rd) \<and>
       rbr (width fmt) rd = (vals, rd') \<and> length (atoms st) = natoms st \<and>
       length vals \<noteq> natoms st \<longrightarrow>
      parseMasses fmt0 rbr st =
        (Some (FileParseError ''Error parsing masses from amber file'' (lineNumber rd')),
         st\<lparr>rdr := rd'\<rparr>)"
    using parseMasses_mismatch [of fmt0 st fmt rd rbr vals rd'] by simp
  have p: "atoms st \<noteq> [] \<longrightarrow>
        length (atoms (snd (parsePointers fmt0 a0 rbn st))) = length (atoms st)"
    using parsePointers_nonempty(2) [of st fmt0 a0 rbn] by simp
  show ?thesis
    using n c m p
    by (simp only: parseTitle_count parseAtomNames_count parseCharges_count parseMasses_count
        parseResidueLabels_count parseResiduePointers_count parseBonds_count
        parseAmoebaRegularBondNumList_count parseAmoebaRegularBondList_count simp_thms)
qed


theorem section_size_mismatch_witness:
  "parseAtomNames ex_fmt0 (ex_block [''C1'']) (ex_amber ''%FORMAT(20a4)'' (ex_atoms 2) 2) =
     (Some (FileParseError ''Error parsing atom names'' 1),
      (ex_amber ''%FORMAT(20a4)'' (ex_atoms 2) 2)
        \<lparr>rdr := \<lparr>pending = [], line = ''%FORMAT(20a4)'', lineNumber = 1\<rparr>\<rparr>)
   \<and> parseCharges ex_fmt0 (ex_block [1]) (ex_amber ''%FORMAT(5E16.8)'' (ex_atoms 2) 2) =
     (Some (FileParseError ''Error parsing charges from amber file'' 1),
      (ex_amber ''%FORMAT(5E16.8)'' (ex_atoms 2) 2)
        \<lparr>rdr := \<lparr>pending = [], line = ''%FORMAT(5E16.8)'', lineNumber = 1\<rparr>\<rparr>)
   \<and> parseMasses ex_fmt0 (ex_block [1]) (ex_amber ''%FORMAT(5E16.8)'' (ex_atoms 2) 2) =
     (Some (FileParseError ''Error parsing masses from amber file'' 1),
      (ex_amber ''%FORMAT(5E16.8)'' (ex_atoms 2) 2)
        \<lparr>rdr := \<lparr>pending = [], line = ''%FORMAT(5E16.8)'', lineNumber = 1\<rparr>\<rparr>)
   \<and> length (atoms (snd (parsePointers ex_fmt0 ex_atom0 (ex_block [])
        (ex_amber ''%FORMAT(12I6)'' (ex_atoms 2) 2)))) = 2"
proof -
  let ?rda = "\<lparr>pending = [], line = ''%FORMAT(20a4)'', lineNumber = 1\<rparr>"
  let ?rde = "\<lparr>pending = [], line = ''%FORMAT(5E16.8)'', lineNumber = 1\<rparr>"
  let ?fa = "ex_fmt0\<lparr>repeat := 20, type := CHR ''a'', width := 4\<rparr>"
  let ?fe = "ex_fmt0\<lparr>repeat := 5, type := CHR ''E'', width := 16, precision := 8\<rparr>"
  let ?sa = "ex_amber ''%FORMAT(20a4)'' (ex_atoms 2) 2"
  let ?se = "ex_amber ''%FORMAT(5E16.8)'' (ex_atoms 2) 2"
  let ?sp = "ex_amber ''%FORMAT(12I6)'' (ex_atoms 2) 2"
  have ha: "parseFormat ex_fmt0 ''a'' ''atom names'' (rdr ?sa) = (Inr ?fa, ?rda) \<and>
      ex_block [''C1''] (width ?fa) ?rda = ([''C1''], ?rda) \<and> length [''C1''] \<noteq> natoms ?sa"
    by (simp add: ex_parseFormat_a ex_block_def) (simp add: ex_amber_def)
  have hc: "parseFormat ex_fmt0 ''EFG'' ''charges'' (rdr ?se) = (Inr ?fe, ?rde) \<and>
      ex_block [1::real] (width ?fe) ?rde = ([1], ?rde) \<and> length (atoms ?se) = natoms ?se \<and>
      length [1::real] \<noteq> natoms ?se"
    by (simp add: ex_parseFormat_E ex_block_def) (simp add: ex_amber_def ex_atoms_def)
  have hm: "parseFormat ex_fmt0 ''EFG'' ''masses'' (rdr ?se) = (Inr ?fe, ?rde) \<and>
      ex_block [1::real] (width ?fe) ?rde = ([1], ?rde) \<and> length (atoms ?se) = natoms ?se \<and>
      length [1::real] \<noteq> natoms ?se"
    by (simp add: ex_parseFormat_E ex_block_def) (simp add: ex_amber_def ex_atoms_def)
  have hp: "atoms ?sp \<noteq> [] \<and> length (atoms ?sp) = 2"
    by (simp add: ex_amber_def ex_atoms_def)
  have ca: "parseAtomNames ex_fmt0 (ex_block [''C1'']) ?sa =
      (Some (FileParseError ''Error parsing atom names'' (lineNumber ?rda)), ?sa\<lparr>rdr := ?rda\<rparr>)"
    using section_size_mismatch [where ?fmt0.0 = ex_fmt0 and st = ?sa and fmt = ?fa and rd = ?rda
        and rbs = "ex_block [''C1'']" and names = "[''C1'']" and rd' = ?rda] ha
    by blast
  have cc: "parseCharges ex_fmt0 (ex_block [1]) ?se =
      (Some (FileParseError ''Error parsing charges from amber file'' (lineNumber ?rde)),
       ?se\<lparr>rdr := ?rde\<rparr>)"
    using section_size_mismatch [where ?fmt0.0 = ex_fmt0 and st = ?se and fmt = ?fe and rd = ?rde
        and rbr = "ex_block [1]" and vals = "[1]" and rd' = ?rde] hc
    by blast
  have cm: "parseMasses ex_fmt0 (ex_block [1]) ?se =
      (Some (FileParseError ''Error parsing masses from amber file'' (lineNumber ?rde)),
       ?se\<lparr>rdr := ?rde\<rparr>)"
    using section_size_mismatch [where ?fmt0.0 = ex_fmt0 and st = ?se and fmt = ?fe and rd = ?rde
        and rbr = "ex_block [1]" and vals = "[1]" and rd' = ?rde] hm
    by blast
  have cp: "length (atoms (snd (parsePointers ex_fmt0 ex_atom0 (ex_block []) ?sp))) = length (atoms ?sp)"
    using section_size_mismatch [where ?fmt0.0 = ex_fmt0 and st = ?sp and ?a0.0 = ex_atom0
        and rbn = "ex_block []"] hp
    by blast
  show ?thesis using ca cc cm cp hp by simp
qed

section \<open>Bonds\<close>

lemma bond_pair_other:
  "k \<noteq> ia \<Longrightarrow> k \<noteq> ib \<Longrightarrow> bond_pair ia ib as ! k = as ! k"
  by (simp add: bond_pair_def Let_def)

lemma addBond_update_atom_id:
  "k < length as \<Longrightarrow> atom_id (as[i := addBond (as ! i) b] ! k) = atom_id (as ! k)"
  by (cases "k = i") (simp_all add: addBond_def)

lemma bond_pair_atom_id:
  "k < length as \<Longrightarrow> atom_id (bond_pair ia ib as ! k) = atom_id (as ! k)"
  by (simp add: bond_pair_def Let_def addBond_update_atom_id)

lemma bond_pair_bound:
  assumes "ia < length as" and "ib < length as"
  shows "isBoundTo (bond_pair ia ib as ! ia) (as ! ib)"
    and "isBoundTo (bond_pair ia ib as ! ib) (as ! ia)"
  using assms
  by (auto simp add: bond_pair_def Let_def addBond_def isBoundTo_def nth_list_update)

lemma max_count_mem:
  "x \<in> set xs \<Longrightarrow> max 1 (count_list xs x) = count_list xs x"
  using count_list_0_iff [of xs x] by (simp add: max_def)

lemma count_append_new:
  "x \<notin> set xs \<Longrightarrow> count_list (xs @ [x]) x = max 1 (count_list xs x)"
  using count_list_0_iff [of xs x] by simp

lemma bond_pair_count_fst:
  assumes "ia < length as" and "ib < length as"
  shows "count_list (bonds (bond_pair ia ib as ! ia)) (atom_id (as ! ib)) =
           max 1 (count_list (bonds (as ! ia)) (atom_id (as ! ib)))"
proof (cases "isBoundTo (as ! ia) (as ! ib)")
  case True
  then have m: "atom_id (as ! ib) \<in> set (bonds (as ! ia))"
    by (simp add: isBoundTo_def)
  have "bond_pair ia ib as ! ia = as ! ia"
  proof (cases "ia = ib")
    case True
    with \<open>isBoundTo (as ! ia) (as ! ib)\<close> show ?thesis
      by (simp add: bond_pair_def)
  next
    case False
    with True show ?thesis
      by (simp add: bond_pair_def)
  qed
  then show ?thesis using max_count_mem [OF m] by simp
next
  case False
  then have m: "atom_id (as ! ib) \<notin> set (bonds (as ! ia))"
    by (simp add: isBoundTo_def)
  let ?as1 = "as[ia := addBond (as ! ia) (as ! ib)]"
  have "bond_pair ia ib as ! ia = ?as1 ! ia"
  proof (cases "ia = ib")
    case True
    then have "isBoundTo (?as1 ! ib) (?as1 ! ia)"
      using assms by (simp add: isBoundTo_def addBond_def)
    with False show ?thesis by (simp add: bond_pair_def)
  next
    case ne: False
    with False show ?thesis by (simp add: bond_pair_def Let_def)
  qed
  then show ?thesis
    using assms m by (simp add: addBond_def count_append_new del: count_list_append)
qed

lemma bond_pair_count_snd:
  assumes "ia < length as" and "ib < length as"
  shows "count_list (bonds (bond_pair ia ib as ! ib)) (atom_id (as ! ia)) =
           max 1 (count_list (bonds (as ! ib)) (atom_id (as ! ia)))"
proof (cases "ia = ib")
  case True
  then show ?thesis using bond_pair_count_fst [OF assms] by simp
next
  case ne: False
  let ?as1 = "if \<not> isBoundTo (as ! ia) (as ! ib) then as[ia := addBond (as ! ia) (as ! ib)] else as"
  have b1: "?as1 ! ib = as ! ib" using ne by simp
  have i1: "atom_id (?as1 ! ia) = atom_id (as ! ia)"
    using assms by (simp add: addBond_def)
  have l1: "ib < length ?as1" using assms by simp
  show ?thesis
  proof (cases "isBoundTo (?as1 ! ib) (?as1 ! ia)")
    case True
    then have "bond_pair ia ib as ! ib = as ! ib"
      using b1 by (simp add: bond_pair_def Let_def)
    moreover have "atom_id (as ! ia) \<in> set (bonds (as ! ib))"
      using True b1 i1 by (simp add: isBoundTo_def)
    ultimately show ?thesis using max_count_mem [of "atom_id (as ! ia)" "bonds (as ! ib)"] by simp
  next
    case False
    then have "bond_pair ia ib as ! ib = addBond (?as1 ! ib) (?as1 ! ia)"
      using l1 by (simp add: bond_pair_def Let_def)
    moreover have "atom_id (as ! ia) \<notin> set (bonds (as ! ib))"
      using False b1 i1 by (simp add: isBoundTo_def)
    ultimately show ?thesis
      using b1 i1 by (simp add: addBond_def count_append_new del: count_list_append)
  qed
qed

lemma bond_pair_idem:
  assumes "ia < length as" and "ib < length as"
  shows "bond_pair ia ib (bond_pair ia ib as) = bond_pair ia ib as"
proof -
  let ?as' = "bond_pair ia ib as"
  have l: "ia < length ?as'" "ib < length ?as'"
    using assms by (simp_all add: bond_pair_length)
  have "isBoundTo (?as' ! ia) (?as' ! ib)" "isBoundTo (?as' ! ib) (?as' ! ia)"
    using bond_pair_bound [OF assms] bond_pair_atom_id [of _ as ia ib] assms
    by (simp_all add: isBoundTo_def)
  then show ?thesis
    by (simp add: bond_pair_def [of ia ib ?as'] Let_def)
qed

lemma bond_loop_degenerate: "bond_loop idx 0 [a, a, x] as = (None, as)"
  by (simp add: bond_loop.simps)

lemma bond_loop_triplet:
  assumes "a \<noteq> b"
    and "0 \<le> idx a" "idx a < int (length as)" "0 \<le> idx b" "idx b < int (length as)"
  shows "bond_loop idx 0 [a, b, x] as = (None, bond_pair (nat (idx a)) (nat (idx b)) as)"
  using assms by (simp add: bond_loop.simps)

lemma bond_loop_triplet_twice:
  assumes "a \<noteq> b"
    and "0 \<le> idx a" "idx a < int (length as)" "0 \<le> idx b" "idx b < int (length as)"
  shows "bond_loop idx 0 [a, b, x, a, b, y] as =
     (None, bond_pair (nat (idx a)) (nat (idx b)) (bond_pair (nat (idx a)) (nat (idx b)) as))"
  using assms by (simp add: bond_loop.simps bond_pair_length)

lemma bond_loop_third_ignored:
  assumes "length bl = length bl'"
    and "\<And>k. k < length bl \<Longrightarrow> k mod 3 \<noteq> 2 \<Longrightarrow> bl ! k = bl' ! k"
    and "i mod 3 = 0"
  shows "bond_loop idx i bl as = bond_loop idx i bl' as"
  using assms
proof (induction idx i bl as rule: bond_loop.induct)
  case (1 idx i bl as)
  have m: "(i + 3) mod 3 = 0" "i mod 3 \<noteq> 2" "(i + 1) mod 3 \<noteq> 2"
    using "1.prems"(3) by presburger+
  show ?case
  proof (cases "i < length bl \<and> i + 1 < length bl")
    case False
    then show ?thesis
      using "1.prems"(1) by (auto simp add: bond_loop.simps [of idx i])
  next
    case True
    then have e: "bl ! i = bl' ! i" "bl ! (i + 1) = bl' ! (i + 1)"
      using "1.prems"(2) m by simp_all
    have r: "bond_loop idx (i + 3) bl as' = bond_loop idx (i + 3) bl' as'"
      if "bl ! i = bl ! (i + 1) \<and> as' = as \<or>
          bl ! i \<noteq> bl ! (i + 1) \<and> 0 \<le> idx (bl ! i) \<and> idx (bl ! i) < int (length as) \<and>
          0 \<le> idx (bl ! (i + 1)) \<and> idx (bl ! (i + 1)) < int (length as) \<and>
          as' = bond_pair (nat (idx (bl ! i))) (nat (idx (bl ! (i + 1)))) as" for as'
      using that True "1.IH"(1) [OF _ _ _ "1.prems"(1,2) m(1)]
        "1.IH"(2) [OF _ _ _ _ _ "1.prems"(1,2) m(1)] "1.prems"(2)
      by auto
    show ?thesis
      using True e r "1.prems"(1)
      by (subst bond_loop.simps [of idx i bl]) (subst bond_loop.simps [of idx i bl'], auto)
  qed
qed


lemma cdiv_nonneg: "0 \<le> a \<Longrightarrow> cdiv a 3 = a div 3"
  by (cases "a = 0") (simp_all add: cdiv_def)

lemma nat_div3: "0 \<le> a \<Longrightarrow> nat (a div 3) = nat a div 3"
  by (simp add: nat_div_distrib)

text \<open>
  C5: in the loop that \<open>parseBonds\<close> and \<open>parseAmoebaRegularBondList\<close> run (with their own
  index decoding \<open>idx\<close>), a triplet whose two stored indices are equal changes nothing.
  A triplet \<open>(a, b, x)\<close> with \<open>a \<noteq> b\<close> whose decoded positions lie in the atom container
  leaves each endpoint bound to the other; decoding the triplet a second time gives the very
  same atoms as decoding it once; and the number of entries for the other endpoint in each
  neighbour list is 1 where there was none before (and what it was, otherwise).
\<close>

theorem bond_triplet_symmetric_idempotent:
  "bond_loop idx 0 [a, a, x] as = (None, as)
   \<and> (a \<noteq> b \<and> 0 \<le> idx a \<and> idx a < int (length as) \<and> 0 \<le> idx b \<and> idx b < int (length as)
      \<longrightarrow>
      (\<exists>as'. bond_loop idx 0 [a, b, x] as = (None, as')
         \<and> bond_loop idx 0 [a, b, x, a, b, y] as = (None, as')
         \<and> isBoundTo (as' ! nat (idx a)) (as ! nat (idx b))
         \<and> isBoundTo (as' ! nat (idx b)) (as ! nat (idx a))
         \<and> count_list (bonds (as' ! nat (idx a))) (atom_id (as ! nat (idx b))) =
             max 1 (count_list (bonds (as ! nat (idx a))) (atom_id (as ! nat (idx b))))
         \<and> count_list (bonds (as' ! nat (idx b))) (atom_id (as ! nat (idx a))) =
             max 1 (count_list (bonds (as ! nat (idx b))) (atom_id (as ! nat (idx a))))))"
proof (intro conjI impI)
  show "bond_loop idx 0 [a, a, x] as = (None, as)"
    by (rule bond_loop_degenerate)
next
  assume h: "a \<noteq> b \<and> 0 \<le> idx a \<and> idx a < int (length as) \<and> 0 \<le> idx b \<and> idx b < int (length as)"
  let ?ia = "nat (idx a)" and ?ib = "nat (idx b)"
  let ?as' = "bond_pair ?ia ?ib as"
  have r: "?ia < length as" "?ib < length as" using h by auto
  have h1: "a \<noteq> b" and h2: "0 \<le> idx a" and h3: "idx a < int (length as)"
    and h4: "0 \<le> idx b" and h5: "idx b < int (length as)"
    using h by simp_all
  have t1: "bond_loop idx 0 [a, b, x] as = (None, ?as')"
    by (rule bond_loop_triplet [OF h1 h2 h3 h4 h5])
  have t2: "bond_loop idx 0 [a, b, x, a, b, y] as = (None, ?as')"
    using bond_loop_triplet_twice [OF h1 h2 h3 h4 h5, of x y] bond_pair_idem [OF r] by simp
  show "\<exists>as'. bond_loop idx 0 [a, b, x] as = (None, as')
         \<and> bond_loop idx 0 [a, b, x, a, b, y] as = (None, as')
         \<and> isBoundTo (as' ! nat (idx a)) (as ! nat (idx b))
         \<and> isBoundTo (as' ! nat (idx b)) (as ! nat (idx a))
         \<and> count_list (bonds (as' ! nat (idx a))) (atom_id (as ! nat (idx b))) =
             max 1 (count_list (bonds (as ! nat (idx a))) (atom_id (as ! nat (idx b))))
         \<and> count_list (bonds (as' ! nat (idx b))) (atom_id (as ! nat (idx a))) =
             max 1 (count_list (bonds (as ! nat (idx b))) (atom_id (as ! nat (idx a))))"
    by (intro exI [of _ ?as'] conjI t1 t2 bond_pair_bound [OF r] bond_pair_count_fst [OF r]
        bond_pair_count_snd [OF r])
qed

theorem bond_triplet_symmetric_idempotent_witness:
  "\<exists>as'. bond_loop (\<lambda>k. cdiv k 3) 0 [0, 3, 0, 0, 3, 0] (ex_atoms 2) = (None, as')
     \<and> count_list (bonds (as' ! 0)) 2 = 1 \<and> count_list (bonds (as' ! 1)) 1 = 1"
proof -
  have c: "cdiv 0 3 = 0" "cdiv 3 3 = 1"
    by (simp_all add: cdiv_def)
  have e: "length (ex_atoms 2) = 2" "atom_id (ex_atoms 2 ! 0) = 1"
    "atom_id (ex_atoms 2 ! Suc 0) = 2" "bonds (ex_atoms 2 ! 0) = []"
    "bonds (ex_atoms 2 ! Suc 0) = []"
    by (simp_all add: ex_atoms_def ex_atom0_def upt_conv_Cons)
  have h: "(0::int) \<noteq> 3 \<and> 0 \<le> cdiv 0 3 \<and> cdiv 0 3 < int (length (ex_atoms 2)) \<and>
      0 \<le> cdiv 3 3 \<and> cdiv 3 3 < int (length (ex_atoms 2))"
    by (simp add: c e)
  from bond_triplet_symmetric_idempotent [of "\<lambda>k. cdiv k 3" 0 0 "ex_atoms 2" 3 0] h
  obtain as' where
    "bond_loop (\<lambda>k. cdiv k 3) 0 [0, 3, 0, 0, 3, 0] (ex_atoms 2) = (None, as')"
    "count_list (bonds (as' ! nat (cdiv 0 3))) (atom_id (ex_atoms 2 ! nat (cdiv 3 3))) =
       max 1 (count_list (bonds (ex_atoms 2 ! nat (cdiv 0 3))) (atom_id (ex_atoms 2 ! nat (cdiv 3 3))))"
    "count_list (bonds (as' ! nat (cdiv 3 3))) (atom_id (ex_atoms 2 ! nat (cdiv 0 3))) =
       max 1 (count_list (bonds (ex_atoms 2 ! nat (cdiv 3 3))) (atom_id (ex_atoms 2 ! nat (cdiv 0 3))))"
    by blast
  then show ?thesis by (simp add: c e)
qed

lemma parseBonds_triplet:
  assumes "parseFormat fmt0 ''I'' ''bonds'' (rdr st) = (Inr fmt, rd)"
    and "rb (width fmt) rd = ([a, b, x], rd')"
    and "0 \<le> a" "0 \<le> b" "a \<noteq> b"
    and "nat a div 3 < length (atoms st)" "nat b div 3 < length (atoms st)"
  shows "parseBonds fmt0 rb 1 st =
     (None, st\<lparr>rdr := rd', atoms := bond_pair (nat a div 3) (nat b div 3) (atoms st)\<rparr>)"
proof -
  have "0 \<le> a div 3" "0 \<le> b div 3" "a div 3 < int (length (atoms st))"
    "b div 3 < int (length (atoms st))"
    using assms(3-7) by (simp_all add: nat_div3 [symmetric] nat_less_iff)
  then have "bond_loop (\<lambda>k. cdiv k 3) 0 [a, b, x] (atoms st) =
      (None, bond_pair (nat a div 3) (nat b div 3) (atoms st))"
    using assms(3-5) by (simp add: bond_loop_triplet cdiv_nonneg nat_div3)
  then show ?thesis
    using assms(1,2) by (simp add: parseBonds_def Let_def)
qed

lemma parseAmoebaRegularBondList_triplet:
  assumes "parseFormat fmt0 ''I'' ''amoeba_regular_bond_list'' (rdr st) = (Inr fmt, rd)"
    and "rb (width fmt) rd = ([a, b, x], rd')"
    and "1 \<le> a" "1 \<le> b" "a \<noteq> b"
    and "nat a - 1 < length (atoms st)" "nat b - 1 < length (atoms st)"
  shows "parseAmoebaRegularBondList fmt0 rb 1 st =
     (None, st\<lparr>rdr := rd', atoms := bond_pair (nat a - 1) (nat b - 1) (atoms st)\<rparr>)"
proof -
  have n: "nat (a - 1) = nat a - 1" "nat (b - 1) = nat b - 1"
    using assms(3,4) by simp_all
  have "0 \<le> a - 1" "0 \<le> b - 1" "a - 1 < int (length (atoms st))"
    "b - 1 < int (length (atoms st))"
    using assms(3-7) by linarith+
  then have "bond_loop (\<lambda>k. k - 1) 0 [a, b, x] (atoms st) =
      (None, bond_pair (nat a - 1) (nat b - 1) (atoms st))"
    using assms(5) n by (simp add: bond_loop_triplet)
  then show ?thesis
    using assms(1,2) by (simp add: parseAmoebaRegularBondList_def Let_def)
qed

text \<open>
  C6: \<open>parseBonds\<close> resolves a stored index \<open>k\<close> to the atom at position \<open>k / 3\<close>, and
  \<open>parseAmoebaRegularBondList\<close> to the atom at position \<open>k - 1\<close>: for a block of one triplet
  \<open>(a, b, x)\<close> with \<open>a \<noteq> b\<close> and both positions inside the atom container, the handler
  returns normally, having bonded exactly the atoms at these two positions to each other
  (each is bound to the other, every other atom is as before). The third element \<open>x\<close> does
  not occur in the result; more generally, two bond lists of the same length that agree
  everywhere but at the third elements of their triplets are decoded alike.
\<close>

theorem bond_index_conventions:
  "(parseFormat fmt0 ''I'' ''bonds'' (rdr st) = (Inr fmt, rd) \<and>
    rb (width fmt) rd = ([a, b, x], rd') \<and> 0 \<le> a \<and> 0 \<le> b \<and> a \<noteq> b \<and>
    nat a div 3 < length (atoms st) \<and> nat b div 3 < length (atoms st) \<longrightarrow>
      parseBonds fmt0 rb 1 st =
        (None, st\<lparr>rdr := rd', atoms := bond_pair (nat a div 3) (nat b div 3) (atoms st)\<rparr>))
   \<and> (parseFormat fmt0 ''I'' ''amoeba_regular_bond_list'' (rdr st) = (Inr fmt, rd) \<and>
    rb (width fmt) rd = ([a, b, x], rd') \<and> 1 \<le> a \<and> 1 \<le> b \<and> a \<noteq> b \<and>
    nat a - 1 < length (atoms st) \<and> nat b - 1 < length (atoms st) \<longrightarrow>
      parseAmoebaRegularBondList fmt0 rb 1 st =
        (None, st\<lparr>rdr := rd', atoms := bond_pair (nat a - 1) (nat b - 1) (atoms st)\<rparr>))
   \<and> (ia < length as \<and> ib < length as \<longrightarrow>
        isBoundTo (bond_pair ia ib as ! ia) (as ! ib) \<and>
        isBoundTo (bond_pair ia ib as ! ib) (as ! ia) \<and>
        (\<forall>k. k \<noteq> ia \<and> k \<noteq> ib \<longrightarrow> bond_pair ia ib as ! k = as ! k))
   \<and> (length bl = length bl' \<and> (\<forall>k < length bl. k mod 3 \<noteq> 2 \<longrightarrow> bl ! k = bl' ! k) \<longrightarrow>
        bond_loop (\<lambda>k. cdiv k 3) 0 bl as = bond_loop (\<lambda>k. cdiv k 3) 0 bl' as \<and>
        bond_loop (\<lambda>k. k - 1) 0 bl as = bond_loop (\<lambda>k. k - 1) 0 bl' as)"
proof (intro conjI impI allI)
  assume "parseFormat fmt0 ''I'' ''bonds'' (rdr st) = (Inr fmt, rd) \<and>
    rb (width fmt) rd = ([a, b, x], rd') \<and> 0 \<le> a \<and> 0 \<le> b \<and> a \<noteq> b \<and>
    nat a div 3 < length (atoms st) \<and> nat b div 3 < length (atoms st)"
  then show "parseBonds fmt0 rb 1 st =
        (None, st\<lparr>rdr := rd', atoms := bond_pair (nat a div 3) (nat b div 3) (atoms st)\<rparr>)"
    using parseBonds_triplet by blast
next
  assume "parseFormat fmt0 ''I'' ''amoeba_regular_bond_list'' (rdr st) = (Inr fmt, rd) \<and>
    rb (width fmt) rd = ([a, b, x], rd') \<and> 1 \<le> a \<and> 1 \<le> b \<and> a \<noteq> b \<and>
    nat a - 1 < length (atoms st) \<and> nat b - 1 < length (atoms st)"
  then show "parseAmoebaRegularBondList fmt0 rb 1 st =
        (None, st\<lparr>rdr := rd', atoms := bond_pair (nat a - 1) (nat b - 1) (atoms st)\<rparr>)"
    using parseAmoebaRegularBondList_triplet by blast
next
  assume "ia < length as \<and> ib < length as"
  then show "isBoundTo (bond_pair ia ib as ! ia) (as ! ib)"
    and "isBoundTo (bond_pair ia ib as ! ib) (as ! ia)"
    using bond_pair_bound by blast+
next
  fix k assume "k \<noteq> ia \<and> k \<noteq> ib"
  then show "bond_pair ia ib as ! k = as ! k"
    by (simp add: bond_pair_other)
next
  assume h: "length bl = length bl' \<and> (\<forall>k < length bl. k mod 3 \<noteq> 2 \<longrightarrow> bl ! k = bl' ! k)"
  then have l: "length bl = length bl'"
    and e: "\<And>k. k < length bl \<Longrightarrow> k mod 3 \<noteq> 2 \<Longrightarrow> bl ! k = bl' ! k"
    by simp_all
  have z: "(0::nat) mod 3 = 0" by simp
  show "bond_loop (\<lambda>k. cdiv k 3) 0 bl as = bond_loop (\<lambda>k. cdiv k 3) 0 bl' as"
    by (rule bond_loop_third_ignored [OF l e z])
  show "bond_loop (\<lambda>k. k - 1) 0 bl as = bond_loop (\<lambda>k. k - 1) 0 bl' as"
    by (rule bond_loop_third_ignored [OF l e z])
qed

theorem bond_index_conventions_witness:
  "map bonds (atoms (snd (parseBonds ex_fmt0 (ex_block [0, 3, 0]) 1
      (ex_amber ''%FORMAT(12I6)'' (ex_atoms 2) 2)))) = [[2], [1]]
   \<and> map bonds (atoms (snd (parseAmoebaRegularBondList ex_fmt0 (ex_block [1, 2, 0]) 1
      (ex_amber ''%FORMAT(12I6)'' (ex_atoms 2) 2)))) = [[2], [1]]
   \<and> isBoundTo (bond_pair 0 1 (ex_atoms 3) ! 0) (ex_atoms 3 ! 1)
   \<and> bond_pair 0 1 (ex_atoms 3) ! 2 = ex_atoms 3 ! 2
   \<and> bond_loop (\<lambda>k. cdiv k 3) 0 [0, 3, 0] (ex_atoms 2) =
       bond_loop (\<lambda>k. cdiv k 3) 0 [0, 3, 9] (ex_atoms 2)"
proof -
  let ?st = "ex_amber ''%FORMAT(12I6)'' (ex_atoms 2) 2"
  let ?fmt = "ex_fmt0\<lparr>repeat := 12, type := CHR ''I'', width := 6\<rparr>"
  let ?rd = "\<lparr>pending = [], line = ''%FORMAT(12I6)'', lineNumber = 1\<rparr>"
  have len: "length (atoms ?st) = 2" "length (ex_atoms 3) = 3"
    by (simp_all add: ex_amber_def ex_atoms_def)
  have bp: "map bonds (bond_pair 0 1 (ex_atoms 2)) = [[2], [1]]"
    by (simp add: bond_pair_def isBoundTo_def addBond_def ex_atoms_def ex_atom0_def
        upt_conv_Cons)
  have h1: "parseFormat ex_fmt0 ''I'' ''bonds'' (rdr ?st) = (Inr ?fmt, ?rd) \<and>
      ex_block [0, 3, 0] (width ?fmt) ?rd = ([0, 3, 0], ?rd) \<and> (0::int) \<le> 0 \<and> (0::int) \<le> 3 \<and>
      (0::int) \<noteq> 3 \<and> nat 0 div 3 < length (atoms ?st) \<and> nat 3 div 3 < length (atoms ?st)"
    by (simp add: ex_parseFormat_I ex_block_def len)
  have h2: "parseFormat ex_fmt0 ''I'' ''amoeba_regular_bond_list'' (rdr ?st) = (Inr ?fmt, ?rd) \<and>
      ex_block [1, 2, 0] (width ?fmt) ?rd = ([1, 2, 0], ?rd) \<and> (1::int) \<le> 1 \<and> (1::int) \<le> 2 \<and>
      (1::int) \<noteq> 2 \<and> nat 1 - 1 < length (atoms ?st) \<and> nat 2 - 1 < length (atoms ?st)"
    by (simp add: ex_parseFormat_I ex_block_def len)
  have h3: "0 < length (ex_atoms 3) \<and> 1 < length (ex_atoms 3)"
    by (simp add: len)
  have h4: "length [0, 3, 0 :: int] = length [0, 3, 9 :: int] \<and>
      (\<forall>k < length [0, 3, 0 :: int]. k mod 3 \<noteq> 2 \<longrightarrow> [0, 3, 0 :: int] ! k = [0, 3, 9] ! k)"
    by (auto simp add: nth_Cons split: nat.splits)
  have c1: "parseBonds ex_fmt0 (ex_block [0, 3, 0]) 1 ?st =
      (None, ?st\<lparr>rdr := ?rd, atoms := bond_pair (nat 0 div 3) (nat 3 div 3) (atoms ?st)\<rparr>)"
    using bond_index_conventions [where ?fmt0.0 = ex_fmt0 and st = ?st and fmt = ?fmt
        and rd = ?rd and rb = "ex_block [0, 3, 0]" and a = 0 and b = 3 and x = 0 and rd' = ?rd] h1
    by blast
  have c2: "parseAmoebaRegularBondList ex_fmt0 (ex_block [1, 2, 0]) 1 ?st =
      (None, ?st\<lparr>rdr := ?rd, atoms := bond_pair (nat 1 - 1) (nat 2 - 1) (atoms ?st)\<rparr>)"
    using bond_index_conventions [where ?fmt0.0 = ex_fmt0 and st = ?st and fmt = ?fmt
        and rd = ?rd and rb = "ex_block [1, 2, 0]" and a = 1 and b = 2 and x = 0 and rd' = ?rd] h2
    by blast
  have c3: "isBoundTo (bond_pair 0 1 (ex_atoms 3) ! 0) (ex_atoms 3 ! 1) \<and>
      bond_pair 0 1 (ex_atoms 3) ! 2 = ex_atoms 3 ! 2"
    using bond_index_conventions [where ia = 0 and ib = 1 and as = "ex_atoms 3"] h3
    by simp
  have c4: "bond_loop (\<lambda>k. cdiv k 3) 0 [0, 3, 0] (ex_atoms 2) =
       bond_loop (\<lambda>k. cdiv k 3) 0 [0, 3, 9] (ex_atoms 2)"
    using bond_index_conventions [where bl = "[0, 3, 0]" and bl' = "[0, 3, 9]"
        and as = "ex_atoms 2"] h4
    by blast
  have a: "atoms ?st = ex_atoms 2" by (simp add: ex_amber_def)
  have d: "nat 0 div 3 = (0::nat)" "nat 3 div 3 = (1::nat)" "nat 1 - 1 = (0::nat)"
    "nat 2 - 1 = (1::nat)"
    by simp_all
  show ?thesis
    unfolding c1 c2 a d using c3 c4 bp by simp
qed

section \<open>Format specifications\<close>

lemma parse_spec_order:
  "parse_spec tok fmt0 =
     (if fst (try_nXwd tok fmt0) then Some (snd (try_nXwd tok fmt0))
      else if fst (try_nXw tok (snd (try_nXwd tok fmt0)))
        then Some (snd (try_nXw tok (snd (try_nXwd tok fmt0))))
      else if fst (try_Xw tok (snd (try_nXw tok (snd (try_nXwd tok fmt0)))))
        then Some (snd (try_Xw tok (snd (try_nXw tok (snd (try_nXwd tok fmt0))))))
      else if fst (try_X tok (snd (try_Xw tok (snd (try_nXw tok (snd (try_nXwd tok fmt0)))))))
        then Some (snd (try_X tok (snd (try_Xw tok (snd (try_nXw tok (snd (try_nXwd tok fmt0))))))))
      else None)"
  by (simp add: parse_spec_def case_prod_beta Let_def)

lemma try_X_ok: "fst (try_X tok fmt) \<longleftrightarrow> dropWhile isspace tok \<noteq> []"
  by (simp add: try_X_def extract_char_def Let_def del: dropWhile_eq_Nil_conv split: list.splits)

lemma extract_int_failed: "snd s \<Longrightarrow> extract_int s = (None, s)"
  by (simp add: extract_int_def)

lemma extract_char_failed: "snd s \<Longrightarrow> extract_char s = (None, s)"
  by (simp add: extract_char_def)

lemma extract_int_blank:
  "dropWhile isspace tok = [] \<Longrightarrow> extract_int (tok, False) = (None, ([], True))"
  by (simp add: extract_int_def del: dropWhile_eq_Nil_conv)

lemma extract_char_blank:
  "dropWhile isspace tok = [] \<Longrightarrow> extract_char (tok, False) = (None, ([], True))"
  by (simp add: extract_char_def del: dropWhile_eq_Nil_conv)

lemma blank_no_grammar:
  assumes "dropWhile isspace tok = []"
  shows "\<not> fst (try_nXwd tok f)" "\<not> fst (try_nXw tok f)" "\<not> fst (try_Xw tok f)"
    "\<not> fst (try_X tok f)"
  using assms
  by (simp_all add: try_nXwd_def try_nXw_def try_Xw_def try_X_def extract_int_blank
      extract_char_blank extract_int_failed extract_char_failed)

lemma parse_spec_None: "parse_spec tok fmt0 = None \<longleftrightarrow> dropWhile isspace tok = []"
proof
  assume "parse_spec tok fmt0 = None"
  then have "\<not> fst (try_X tok (snd (try_Xw tok (snd (try_nXw tok (snd (try_nXwd tok fmt0)))))))"
    by (simp add: parse_spec_order split: if_splits)
  then show "dropWhile isspace tok = []" by (simp add: try_X_ok)
next
  assume "dropWhile isspace tok = []"
  then show "parse_spec tok fmt0 = None"
    by (simp add: parse_spec_order blank_no_grammar)
qed

text \<open>
  What \<open>parseFormat\<close> does on a line with a token between the parentheses. On the lines
  \<^verbatim>\<open>%FORMAT(20I8)\<close> and \<^verbatim>\<open>%FORMAT(5E16.8)\<close> it yields repeat 20, type I, width 8 (the
  precision is left as constructed) and repeat 5, type E, width 16, precision 8. The four
  grammars are tried in the order \<open>nXw.d\<close>, \<open>nXw\<close>, \<open>Xw\<close>,
  \<open>X\<close>, and the result is that of the first attempt that succeeds. No grammar matches
  exactly when the token between the parentheses holds nothing but white space, and then
  \<open>parseFormat\<close> fails with the parse error "Cannot parse format for" the section; a line
  that does not begin with \<^verbatim>\<open>%FORMAT\<close> fails with "Expected format for" the section; and
  a parsed type outside \<open>expected_types\<close> fails with "Invalid format type for" the section.
  All three are \<^verbatim>\<open>FileParseError\<close>s in the source, told apart by their message, which
  names the section \<open>where\<close>.
\<close>

theorem parseFormat_grammars:
  "parseFormat fmt0 ''I'' wh \<lparr>pending = ''%FORMAT(20I8)'' # ls, line = l, lineNumber = n\<rparr> =
     (Inr (fmt0\<lparr>repeat := 20, type := CHR ''I'', width := 8\<rparr>),
      \<lparr>pending = ls, line = ''%FORMAT(20I8)'', lineNumber = n + 1\<rparr>)
   \<and> parseFormat fmt0 ''EFG'' wh \<lparr>pending = ''%FORMAT(5E16.8)'' # ls, line = l, lineNumber = n\<rparr> =
     (Inr (fmt0\<lparr>repeat := 5, type := CHR ''E'', width := 16, precision := 8\<rparr>),
      \<lparr>pending = ls, line = ''%FORMAT(5E16.8)'', lineNumber = n + 1\<rparr>)
   \<and> parse_spec tok fmt0 =
     (if fst (try_nXwd tok fmt0) then Some (snd (try_nXwd tok fmt0))
      else if fst (try_nXw tok (snd (try_nXwd tok fmt0)))
        then Some (snd (try_nXw tok (snd (try_nXwd tok fmt0))))
      else if fst (try_Xw tok (snd (try_nXw tok (snd (try_nXwd tok fmt0)))))
        then Some (snd (try_Xw tok (snd (try_nXw tok (snd (try_nXwd tok fmt0))))))
      else if fst (try_X tok (snd (try_Xw tok (snd (try_nXw tok (snd (try_nXwd tok fmt0)))))))
        then Some (snd (try_X tok (snd (try_Xw tok (snd (try_nXw tok (snd (try_nXwd tok fmt0))))))))
      else None)
   \<and> (parse_spec tok fmt0 = None \<longleftrightarrow> dropWhile isspace tok = [])
   \<and> (take 7 (line (snd (getNext rd))) \<noteq> ''%FORMAT'' \<longrightarrow>
        parseFormat fmt0 expected_types wh rd =
          (Inl (FileParseError (''Expected format for '' @ wh) (lineNumber (snd (getNext rd)))),
           snd (getNext rd)))
   \<and> (take 7 (line (snd (getNext rd))) = ''%FORMAT'' \<and>
       tokenizer ''()'' (line (snd (getNext rd))) = t0 # tok # ts \<and>
       parse_spec tok fmt0 = None \<longrightarrow>
        parseFormat fmt0 expected_types wh rd =
          (Inl (FileParseError (''Cannot parse format for '' @ wh) (lineNumber (snd (getNext rd)))),
           snd (getNext rd)))
   \<and> (take 7 (line (snd (getNext rd))) = ''%FORMAT'' \<and>
       tokenizer ''()'' (line (snd (getNext rd))) = t0 # tok # ts \<and>
       parse_spec tok fmt0 = Some fmt \<and> type fmt \<notin> set expected_types \<longrightarrow>
        parseFormat fmt0 expected_types wh rd =
          (Inl (FileParseError (''Invalid format type for '' @ wh) (lineNumber (snd (getNext rd)))),
           snd (getNext rd)))
   \<and> (take 7 (line (snd (getNext rd))) = ''%FORMAT'' \<and>
       tokenizer ''()'' (line (snd (getNext rd))) = t0 # tok # ts \<and>
       parse_spec tok fmt0 = Some fmt \<and> type fmt \<in> set expected_types \<longrightarrow>
        parseFormat fmt0 expected_types wh rd = (Inr fmt, snd (getNext rd)))"
proof (intro conjI impI)
  show "parseFormat fmt0 ''I'' wh \<lparr>pending = ''%FORMAT(20I8)'' # ls, line = l, lineNumber = n\<rparr> =
     (Inr (fmt0\<lparr>repeat := 20, type := CHR ''I'', width := 8\<rparr>),
      \<lparr>pending = ls, line = ''%FORMAT(20I8)'', lineNumber = n + 1\<rparr>)"
    by (simp add: fmt_eval)
  show "parseFormat fmt0 ''EFG'' wh \<lparr>pending = ''%FORMAT(5E16.8)'' # ls, line = l, lineNumber = n\<rparr> =
     (Inr (fmt0\<lparr>repeat := 5, type := CHR ''E'', width := 16, precision := 8\<rparr>),
      \<lparr>pending = ls, line = ''%FORMAT(5E16.8)'', lineNumber = n + 1\<rparr>)"
    by (simp add: fmt_eval)
  show "parse_spec tok fmt0 =
     (if fst (try_nXwd tok fmt0) then Some (snd (try_nXwd tok fmt0))
      else if fst (try_nXw tok (snd (try_nXwd tok fmt0)))
        then Some (snd (try_nXw tok (snd (try_nXwd tok fmt0))))
      else if fst (try_Xw tok (snd (try_nXw tok (snd (try_nXwd tok fmt0)))))
        then Some (snd (try_Xw tok (snd (try_nXw tok (snd (try_nXwd tok fmt0))))))
      else if fst (try_X tok (snd (try_Xw tok (snd (try_nXw tok (snd (try_nXwd tok fmt0)))))))
        then Some (snd (try_X tok (snd (try_Xw tok (snd (try_nXw tok (snd (try_nXwd tok fmt0))))))))
      else None)"
    by (rule parse_spec_order)
  show "parse_spec tok fmt0 = None \<longleftrightarrow> dropWhile isspace tok = []"
    by (rule parse_spec_None)
next
  assume "take 7 (line (snd (getNext rd))) \<noteq> ''%FORMAT''"
  then show "parseFormat fmt0 expected_types wh rd =
          (Inl (FileParseError (''Expected format for '' @ wh) (lineNumber (snd (getNext rd)))),
           snd (getNext rd))"
    by (simp add: parseFormat_def Let_def)
next
  assume "take 7 (line (snd (getNext rd))) = ''%FORMAT'' \<and>
       tokenizer ''()'' (line (snd (getNext rd))) = t0 # tok # ts \<and>
       parse_spec tok fmt0 = None"
  then show "parseFormat fmt0 expected_types wh rd =
          (Inl (FileParseError (''Cannot parse format for '' @ wh) (lineNumber (snd (getNext rd)))),
           snd (getNext rd))"
    by (simp add: parseFormat_def Let_def)
next
  assume "take 7 (line (snd (getNext rd))) = ''%FORMAT'' \<and>
       tokenizer ''()'' (line (snd (getNext rd))) = t0 # tok # ts \<and>
       parse_spec tok fmt0 = Some fmt \<and> type fmt \<notin> set expected_types"
  then show "parseFormat fmt0 expected_types wh rd =
          (Inl (FileParseError (''Invalid format type for '' @ wh) (lineNumber (snd (getNext rd)))),
           snd (getNext rd))"
    by (simp add: parseFormat_def Let_def)
next
  assume "take 7 (line (snd (getNext rd))) = ''%FORMAT'' \<and>
       tokenizer ''()'' (line (snd (getNext rd))) = t0 # tok # ts \<and>
       parse_spec tok fmt0 = Some fmt \<and> type fmt \<in> set expected_types"
  then show "parseFormat fmt0 expected_types wh rd = (Inr fmt, snd (getNext rd))"
    by (simp add: parseFormat_def Let_def)
qed


theorem parseFormat_grammars_witness:
  "parseFormat ex_fmt0 ''a'' ''title'' \<lparr>pending = [''garbage''], line = [], lineNumber = 0\<rparr> =
     (Inl (FileParseError ''Expected format for title'' 1),
      \<lparr>pending = [], line = ''garbage'', lineNumber = 1\<rparr>)
   \<and> parseFormat ex_fmt0 ''a'' ''title'' \<lparr>pending = [''%FORMAT( )''], line = [], lineNumber = 0\<rparr> =
     (Inl (FileParseError ''Cannot parse format for title'' 1),
      \<lparr>pending = [], line = ''%FORMAT( )'', lineNumber = 1\<rparr>)
   \<and> parseFormat ex_fmt0 ''EFG'' ''charges''
       \<lparr>pending = [''%FORMAT(20I8)''], line = [], lineNumber = 0\<rparr> =
     (Inl (FileParseError ''Invalid format type for charges'' 1),
      \<lparr>pending = [], line = ''%FORMAT(20I8)'', lineNumber = 1\<rparr>)
   \<and> parseFormat ex_fmt0 ''a'' ''title'' \<lparr>pending = [''%FORMAT(a)''], line = [], lineNumber = 0\<rparr> =
     (Inr (ex_fmt0\<lparr>repeat := 0, type := CHR ''a''\<rparr>),
      \<lparr>pending = [], line = ''%FORMAT(a)'', lineNumber = 1\<rparr>)"
proof -
  let ?r1 = "\<lparr>pending = [''garbage''], line = [], lineNumber = 0\<rparr>"
  let ?r2 = "\<lparr>pending = [''%FORMAT( )''], line = [], lineNumber = 0\<rparr>"
  let ?r3 = "\<lparr>pending = [''%FORMAT(20I8)''], line = [], lineNumber = 0\<rparr>"
  let ?r4 = "\<lparr>pending = [''%FORMAT(a)''], line = [], lineNumber = 0\<rparr>"
  let ?f3 = "ex_fmt0\<lparr>repeat := 20, type := CHR ''I'', width := 8\<rparr>"
  let ?f4 = "ex_fmt0\<lparr>repeat := 0, type := CHR ''a''\<rparr>"
  have g1: "snd (getNext ?r1) = \<lparr>pending = [], line = ''garbage'', lineNumber = 1\<rparr>"
    and g2: "snd (getNext ?r2) = \<lparr>pending = [], line = ''%FORMAT( )'', lineNumber = 1\<rparr>"
    and g3: "snd (getNext ?r3) = \<lparr>pending = [], line = ''%FORMAT(20I8)'', lineNumber = 1\<rparr>"
    and g4: "snd (getNext ?r4) = \<lparr>pending = [], line = ''%FORMAT(a)'', lineNumber = 1\<rparr>"
    by (simp_all add: getNext_def)
  have h1: "take 7 (line (snd (getNext ?r1))) \<noteq> ''%FORMAT''"
    by (simp add: g1)
  have h2: "take 7 (line (snd (getNext ?r2))) = ''%FORMAT'' \<and>
      tokenizer ''()'' (line (snd (getNext ?r2))) = ''%FORMAT'' # '' '' # [] \<and>
      parse_spec '' '' ex_fmt0 = None"
    by (simp add: g2 tokenizer_def parse_spec_None isspace_def)
  have h3: "take 7 (line (snd (getNext ?r3))) = ''%FORMAT'' \<and>
      tokenizer ''()'' (line (snd (getNext ?r3))) = ''%FORMAT'' # ''20I8'' # [] \<and>
      parse_spec ''20I8'' ex_fmt0 = Some ?f3 \<and> type ?f3 \<notin> set ''EFG''"
    by (simp add: g3 fmt_eval)
  have h4: "take 7 (line (snd (getNext ?r4))) = ''%FORMAT'' \<and>
      tokenizer ''()'' (line (snd (getNext ?r4))) = ''%FORMAT'' # ''a'' # [] \<and>
      parse_spec ''a'' ex_fmt0 = Some ?f4 \<and> type ?f4 \<in> set ''a''"
    by (simp add: g4 fmt_eval ex_fmt0_def)
  have c1: "parseFormat ex_fmt0 ''a'' ''title'' ?r1 =
      (Inl (FileParseError (''Expected format for '' @ ''title'') (lineNumber (snd (getNext ?r1)))),
       snd (getNext ?r1))"
    using parseFormat_grammars [where rd = ?r1 and ?fmt0.0 = ex_fmt0 and expected_types = "''a''"
        and wh = "''title''"] h1
    by blast
  have c2: "parseFormat ex_fmt0 ''a'' ''title'' ?r2 =
      (Inl (FileParseError (''Cannot parse format for '' @ ''title'') (lineNumber (snd (getNext ?r2)))),
       snd (getNext ?r2))"
    using parseFormat_grammars [where rd = ?r2 and ?fmt0.0 = ex_fmt0 and expected_types = "''a''"
        and wh = "''title''" and tok = "'' ''" and ?t0.0 = "''%FORMAT''" and ts = "[]"] h2
    by blast
  have c3: "parseFormat ex_fmt0 ''EFG'' ''charges'' ?r3 =
      (Inl (FileParseError (''Invalid format type for '' @ ''charges'')
             (lineNumber (snd (getNext ?r3)))),
       snd (getNext ?r3))"
    using parseFormat_grammars [where rd = ?r3 and ?fmt0.0 = ex_fmt0 and expected_types = "''EFG''"
        and wh = "''charges''" and tok = "''20I8''" and ?t0.0 = "''%FORMAT''" and ts = "[]"
        and fmt = ?f3] h3
    by blast
  have c4: "parseFormat ex_fmt0 ''a'' ''title'' ?r4 = (Inr ?f4, snd (getNext ?r4))"
    using parseFormat_grammars [where rd = ?r4 and ?fmt0.0 = ex_fmt0 and expected_types = "''a''"
        and wh = "''title''" and tok = "''a''" and ?t0.0 = "''%FORMAT''" and ts = "[]"
        and fmt = ?f4] h4
    by blast
  show ?thesis
    unfolding c1 c2 c3 c4 g1 g2 g3 g4 by simp
qed

text \<open>
  C4: the claim holds of every format line that has a token between its parentheses: each
  of the four grammars is reached, in the order \<open>nXw.d\<close>, \<open>nXw\<close>, \<open>Xw\<close>, \<open>X\<close>
  (\<^verbatim>\<open>(5E16.8)\<close> is taken by the first, \<^verbatim>\<open>(20I8)\<close> by the second, \<^verbatim>\<open>(a80)\<close> by the third and
  \<^verbatim>\<open>(a)\<close> by the fourth), and a blank token, which no grammar matches, gives the parse
  error "Cannot parse format for" the section. But on the lines \<^verbatim>\<open>%FORMAT()\<close> and
  \<^verbatim>\<open>%FORMAT\<close>, which hold no format at all, the tokenizer yields the single token
  \<^verbatim>\<open>%FORMAT\<close>, and \<open>parseFormat\<close> reads the token after it without a test: no grammar is
  tried and no parse error is raised; the program reads past the last token.
\<close>

theorem parseFormat_missing_token:
  "tokenizer ''()'' ''%FORMAT()'' = [''%FORMAT'']
   \<and> parseFormat fmt0 expected_types wh
        \<lparr>pending = ''%FORMAT()'' # ls, line = l, lineNumber = n\<rparr> =
       (Inl OutOfRange, \<lparr>pending = ls, line = ''%FORMAT()'', lineNumber = n + 1\<rparr>)
   \<and> parseFormat fmt0 expected_types wh
        \<lparr>pending = ''%FORMAT'' # ls, line = l, lineNumber = n\<rparr> =
       (Inl OutOfRange, \<lparr>pending = ls, line = ''%FORMAT'', lineNumber = n + 1\<rparr>)
   \<and> parseFormat fmt0 expected_types wh
        \<lparr>pending = ''%FORMAT( )'' # ls, line = l, lineNumber = n\<rparr> =
       (Inl (FileParseError (''Cannot parse format for '' @ wh) (n + 1)),
        \<lparr>pending = ls, line = ''%FORMAT( )'', lineNumber = n + 1\<rparr>)
   \<and> parseFormat fmt0 ''EFG'' wh
        \<lparr>pending = ''%FORMAT(5E16.8)'' # ls, line = l, lineNumber = n\<rparr> =
       (Inr (fmt0\<lparr>repeat := 5, type := CHR ''E'', width := 16, precision := 8\<rparr>),
        \<lparr>pending = ls, line = ''%FORMAT(5E16.8)'', lineNumber = n + 1\<rparr>)
   \<and> parseFormat fmt0 ''I'' wh
        \<lparr>pending = ''%FORMAT(20I8)'' # ls, line = l, lineNumber = n\<rparr> =
       (Inr (fmt0\<lparr>repeat := 20, type := CHR ''I'', width := 8\<rparr>),
        \<lparr>pending = ls, line = ''%FORMAT(20I8)'', lineNumber = n + 1\<rparr>)
   \<and> parseFormat fmt0 ''a'' wh
        \<lparr>pending = ''%FORMAT(a80)'' # ls, line = l, lineNumber = n\<rparr> =
       (Inr (fmt0\<lparr>repeat := 0, type := CHR ''a'', width := 80\<rparr>),
        \<lparr>pending = ls, line = ''%FORMAT(a80)'', lineNumber = n + 1\<rparr>)
   \<and> parseFormat fmt0 ''a'' wh
        \<lparr>pending = ''%FORMAT(a)'' # ls, line = l, lineNumber = n\<rparr> =
       (Inr (fmt0\<lparr>repeat := 0, type := CHR ''a''\<rparr>),
        \<lparr>pending = ls, line = ''%FORMAT(a)'', lineNumber = n + 1\<rparr>)
   \<and> fst (try_nXwd ''5E16.8'' fmt0)
   \<and> \<not> fst (try_nXwd ''20I8'' fmt0) \<and> fst (try_nXw ''20I8'' fmt0)
   \<and> \<not> fst (try_nXwd ''a80'' fmt0) \<and> \<not> fst (try_nXw ''a80'' fmt0) \<and> fst (try_Xw ''a80'' fmt0)
   \<and> \<not> fst (try_nXwd ''a'' fmt0) \<and> \<not> fst (try_nXw ''a'' fmt0) \<and> \<not> fst (try_Xw ''a'' fmt0)
   \<and> fst (try_X ''a'' fmt0)"
  by (simp add: fmt_eval)

section \<open>Opaque blocks\<close>

lemma rndup_eq: "(if n mod 4 > 0 then 4 - n mod 4 else n mod 4) = (4 - n mod 4) mod (4::nat)"
  by (cases "n mod 4 = 0") simp_all

lemma write_opaque_good:
  assumes "n \<le> length p" and "\<not> fail (stream' w)"
  shows "write_opaque p n w =
     (Inr n, w\<lparr>stream' := (stream' w)\<lparr>obuf := obuf (stream' w) @ take n p @
                 replicate ((4 - n mod 4) mod 4) (CHR 0x00)\<rparr>\<rparr>)"
proof -
  have t: "take ((4 - n mod 4) mod 4) (replicate 4 (CHR 0x00)) =
      replicate ((4 - n mod 4) mod 4) (CHR 0x00)"
    by simp
  show ?thesis
    using assms
    by (simp add: write_opaque_def Let_def rndup_eq ostream_write_def fail_def t
        del: take_replicate)
qed

lemma read_opaque_good:
  assumes "0 < n" and "\<not> ifail (stream r)"
    and "n + (4 - n mod 4) mod 4 \<le> length (ibuf (stream r))"
  shows "read_opaque n r =
     ((n, take n (ibuf (stream r))),
      r\<lparr>stream := (stream r)\<lparr>ibuf := drop (n + (4 - n mod 4) mod 4) (ibuf (stream r))\<rparr>\<rparr>)"
  using assms
  by (simp add: read_opaque_def Let_def rndup_eq istream_read_def add.commute)

lemma read_opaque_short:
  assumes "0 < n" and "ifail (stream r) \<or> length (ibuf (stream r)) < n"
  shows "fst (fst (read_opaque n r)) = 0"
  using assms
  by (auto simp add: read_opaque_def Let_def istream_read_def)

lemma read_opaque_zero: "read_opaque 0 r = ((1, []), r)"
  by (simp add: read_opaque_def)

text \<open>
  C3, as the spec states it: \<open>readOpaque\<close> of \<open>n\<close> returns 0 on a short read and \<open>n\<close>
  otherwise. For \<open>n = 0\<close> no read is short, and the source returns 1, not \<open>n = 0\<close>: the
  guard \<^verbatim>\<open>if (n == 0) return(1)\<close> keeps the result of an empty read apart from failure.
\<close>

theorem read_opaque_zero_counterexample:
  "fst (fst (read_opaque 0 \<lparr>stream = \<lparr>ibuf = [], ifail = False\<rparr>, need_to_swab = False\<rparr>)) = 1
   \<and> fst (fst (read_opaque 0 \<lparr>stream = \<lparr>ibuf = [], ifail = False\<rparr>, need_to_swab = False\<rparr>)) \<noteq> 0"
  by (simp add: read_opaque_def)

text \<open>
  C3, amended: the padding \<open>(4 - n mod 4) mod 4\<close> is below 4. On a stream that has not
  failed, \<open>writeOpaque\<close> of \<open>n\<close> bytes of a buffer returns \<open>n\<close> and appends exactly the
  \<open>n\<close> bytes followed by that many zero bytes. \<open>readOpaque\<close> of \<open>n > 0\<close> from a stream that
  has not failed and holds at least \<open>n\<close> bytes and their padding returns \<open>n\<close>, delivers
  the \<open>n\<close> bytes and consumes exactly them and the padding; it returns 0 when the stream
  has failed or holds fewer than \<open>n\<close> bytes; and \<open>readOpaque\<close> of 0 bytes consumes nothing
  and returns 1.
\<close>

theorem opaque_padding:
  "(4 - n mod 4) mod 4 < (4::nat)
   \<and> (n \<le> length p \<and> \<not> fail (stream' w) \<longrightarrow>
        write_opaque p n w =
          (Inr n, w\<lparr>stream' := (stream' w)\<lparr>obuf := obuf (stream' w) @ take n p @
                      replicate ((4 - n mod 4) mod 4) (CHR 0x00)\<rparr>\<rparr>)
        \<and> length (obuf (stream' (snd (write_opaque p n w)))) =
            length (obuf (stream' w)) + (n + (4 - n mod 4) mod 4))
   \<and> (0 < n \<and> \<not> ifail (stream r) \<and> n + (4 - n mod 4) mod 4 \<le> length (ibuf (stream r)) \<longrightarrow>
        read_opaque n r =
          ((n, take n (ibuf (stream r))),
           r\<lparr>stream := (stream r)\<lparr>ibuf := drop (n + (4 - n mod 4) mod 4) (ibuf (stream r))\<rparr>\<rparr>)
        \<and> length (ibuf (stream (snd (read_opaque n r)))) + (n + (4 - n mod 4) mod 4) =
            length (ibuf (stream r)))
   \<and> (0 < n \<and> (ifail (stream r) \<or> length (ibuf (stream r)) < n) \<longrightarrow>
        fst (fst (read_opaque n r)) = 0)
   \<and> read_opaque 0 r = ((1, []), r)"
proof (intro conjI impI)
  show "(4 - n mod 4) mod 4 < (4::nat)" by simp
next
  assume h: "n \<le> length p \<and> \<not> fail (stream' w)"
  then have e: "write_opaque p n w =
          (Inr n, w\<lparr>stream' := (stream' w)\<lparr>obuf := obuf (stream' w) @ take n p @
                      replicate ((4 - n mod 4) mod 4) (CHR 0x00)\<rparr>\<rparr>)"
    by (simp add: write_opaque_good)
  show "write_opaque p n w =
          (Inr n, w\<lparr>stream' := (stream' w)\<lparr>obuf := obuf (stream' w) @ take n p @
                      replicate ((4 - n mod 4) mod 4) (CHR 0x00)\<rparr>\<rparr>)"
    by (rule e)
  show "length (obuf (stream' (snd (write_opaque p n w)))) =
            length (obuf (stream' w)) + (n + (4 - n mod 4) mod 4)"
    using h by (simp add: e)
next
  assume h: "0 < n \<and> \<not> ifail (stream r) \<and> n + (4 - n mod 4) mod 4 \<le> length (ibuf (stream r))"
  then have e: "read_opaque n r =
          ((n, take n (ibuf (stream r))),
           r\<lparr>stream := (stream r)\<lparr>ibuf := drop (n + (4 - n mod 4) mod 4) (ibuf (stream r))\<rparr>\<rparr>)"
    by (simp add: read_opaque_good)
  show "read_opaque n r =
          ((n, take n (ibuf (stream r))),
           r\<lparr>stream := (stream r)\<lparr>ibuf := drop (n + (4 - n mod 4) mod 4) (ibuf (stream r))\<rparr>\<rparr>)"
    by (rule e)
  show "length (ibuf (stream (snd (read_opaque n r)))) + (n + (4 - n mod 4) mod 4) =
            length (ibuf (stream r))"
    using h by (simp add: e)
next
  assume "0 < n \<and> (ifail (stream r) \<or> length (ibuf (stream r)) < n)"
  then show "fst (fst (read_opaque n r)) = 0"
    using read_opaque_short by blast
next
  show "read_opaque 0 r = ((1, []), r)" by (rule read_opaque_zero)
qed


theorem opaque_padding_witness:
  "write_opaque ''abcde'' 5 (ex_writer True) =
     (Inr 5, (ex_writer True)\<lparr>stream' := \<lparr>obuf = ''abcde'' @ [CHR 0x00, CHR 0x00, CHR 0x00],
                                           failbit = False, badbit = False\<rparr>\<rparr>)
   \<and> read_opaque 5 (ex_reader True (''abcde'' @ [CHR 0x00, CHR 0x00, CHR 0x00] @ ''xyz'')) =
     ((5, ''abcde''), ex_reader True ''xyz'')
   \<and> fst (fst (read_opaque 5 (ex_reader True ''ab''))) = 0"
proof -
  let ?w = "ex_writer True"
  let ?r = "ex_reader True (''abcde'' @ [CHR 0x00, CHR 0x00, CHR 0x00] @ ''xyz'')"
  let ?q = "ex_reader True ''ab''"
  have pad: "(4 - 5 mod 4) mod 4 = (3::nat)" by simp
  have hw: "5 \<le> length ''abcde'' \<and> \<not> fail (stream' ?w)"
    by (simp add: ex_writer_def fail_def)
  have hr: "(0::nat) < 5 \<and> \<not> ifail (stream ?r) \<and> 5 + (4 - 5 mod 4) mod 4 \<le> length (ibuf (stream ?r))"
    by (simp add: ex_reader_def)
  have hq: "(0::nat) < 5 \<and> (ifail (stream ?q) \<or> length (ibuf (stream ?q)) < 5)"
    by (simp add: ex_reader_def)
  have c1: "write_opaque ''abcde'' 5 ?w =
      (Inr 5, ?w\<lparr>stream' := (stream' ?w)\<lparr>obuf := obuf (stream' ?w) @ take 5 ''abcde'' @
                  replicate ((4 - 5 mod 4) mod 4) (CHR 0x00)\<rparr>\<rparr>)"
    using opaque_padding [where n = 5 and p = "''abcde''" and w = ?w] hw by blast
  have c2: "read_opaque 5 ?r =
      ((5, take 5 (ibuf (stream ?r))),
       ?r\<lparr>stream := (stream ?r)\<lparr>ibuf := drop (5 + (4 - 5 mod 4) mod 4) (ibuf (stream ?r))\<rparr>\<rparr>)"
    using opaque_padding [where n = 5 and r = ?r] hr by blast
  have c3: "fst (fst (read_opaque 5 ?q)) = 0"
    using opaque_padding [where n = 5 and r = ?q] hq by blast
  show ?thesis
    unfolding c1 c2 pad using c3
    by (simp add: ex_writer_def ex_reader_def numeral_3_eq_3)
qed

section \<open>Scalars and strings\<close>

lemma uint_roundtrip_le:
  assumes "(n::nat) < 4294967296"
  shows "foldr (\<lambda>c v. of_char c + 256 * v)
           [char_of n, char_of (n div 256), char_of (n div 65536), char_of (n div 16777216)] 0 = n"
proof -
  have "n div 16777216 < 256" using assms by arith
  then have "n div 16777216 mod 256 = n div 16777216" by simp
  moreover have "n div 65536 = n div 256 div 256" "n div 16777216 = n div 256 div 256 div 256"
    by (simp_all add: div_mult2_eq [symmetric])
  ultimately show ?thesis by simp
qed

lemma bytes_uint_bytes: "(n::nat) < 4294967296 \<Longrightarrow> bytes_uint le (uint_bytes le n) = n"
  using uint_roundtrip_le [of n] by (simp add: bytes_uint_def uint_bytes_def Let_def)

lemma length_uint_bytes: "length (uint_bytes le n) = 4"
  by (simp add: uint_bytes_def Let_def)

lemma map_nth_default:
  "map (\<lambda>i. if i < length xs then xs ! i else f i) [0..<length xs] = xs"
  by (rule nth_equalityI) simp_all

lemma write_scalar_word:
  assumes "length p = 4" and "\<not> fail (stream' w)"
  shows "write_scalar p u0 w =
     (Inr 1, w\<lparr>stream' := (stream' w)\<lparr>obuf := obuf (stream' w) @
                 (if need_to_swab' w then rev p else p)\<rparr>\<rparr>)"
  using assms
  by (simp add: write_scalar_def Let_def ostream_write_def fail_def swab_def)

lemma read_scalar_word:
  assumes "length bs = 4" and "\<not> ifail (stream r)" and "ibuf (stream r) = bs @ rest"
  shows "read_scalar 4 r0 r =
     (Inr (if need_to_swab r then rev bs else bs, 1), r\<lparr>stream := (stream r)\<lparr>ibuf := rest\<rparr>\<rparr>)"
proof -
  have "result_bytes 4 r0 bs = bs"
    using map_nth_default [of bs r0] assms(1) by (simp add: result_bytes_def)
  then show ?thesis
    using assms by (simp add: read_scalar_def Let_def istream_read_def swab_def)
qed

lemma takeWhile_no_zero:
  "CHR 0x00 \<notin> set s \<Longrightarrow> takeWhile (\<lambda>c. c \<noteq> CHR 0x00) s = s"
  by (induction s) auto

lemma strlen_no_zero: "CHR 0x00 \<notin> set s \<Longrightarrow> strlen s = length s"
  by (simp add: strlen_def takeWhile_no_zero)

lemma takeWhile_terminated:
  "CHR 0x00 \<notin> set s \<Longrightarrow> takeWhile (\<lambda>c. c \<noteq> CHR 0x00) (s @ [CHR 0x00]) = s"
  by (induction s) auto


lemma write_string_good:
  assumes "CHR 0x00 \<notin> set s" and "length s < 4294967296" and "\<not> fail (stream' w)"
  shows "write_string le u0 s w =
     (Inr (length s),
      w\<lparr>stream' := (stream' w)\<lparr>obuf := obuf (stream' w) @
           (if need_to_swab' w then rev (uint_bytes le (length s)) else uint_bytes le (length s)) @
           s @ replicate ((4 - length s mod 4) mod 4) (CHR 0x00)\<rparr>\<rparr>)"
proof -
  define hdr where
    "hdr = (if need_to_swab' w then rev (uint_bytes le (length s)) else uint_bytes le (length s))"
  define w1 where "w1 = w\<lparr>stream' := (stream' w)\<lparr>obuf := obuf (stream' w) @ hdr\<rparr>\<rparr>"
  have n: "strlen s mod 4294967296 = length s"
    using assms(1,2) by (simp add: strlen_no_zero)
  have a: "write_scalar (uint_bytes le (length s)) u0 w = (Inr 1, w1)"
    using write_scalar_word [OF length_uint_bytes assms(3)] by (simp add: w1_def hdr_def)
  have g: "\<not> fail (stream' w1)" using assms(3) by (simp add: fail_def w1_def)
  have "write_opaque (s @ [CHR 0x00]) (length s) w1 =
      (Inr (length s), w1\<lparr>stream' := (stream' w1)\<lparr>obuf := obuf (stream' w1) @
          take (length s) (s @ [CHR 0x00]) @
          replicate ((4 - length s mod 4) mod 4) (CHR 0x00)\<rparr>\<rparr>)"
    by (rule write_opaque_good [OF _ g]) simp
  then have b: "write_opaque (s @ [CHR 0x00]) (length s) w1 =
      (Inr (length s), w\<lparr>stream' := (stream' w)\<lparr>obuf := obuf (stream' w) @ hdr @ s @
          replicate ((4 - length s mod 4) mod 4) (CHR 0x00)\<rparr>\<rparr>)"
    by (simp add: w1_def)
  have "write_string le u0 s w = write_opaque (s @ [CHR 0x00]) (length s) w1"
    by (simp add: write_string_def n a)
  then show ?thesis
    using b by (simp add: hdr_def)
qed

lemma read_string_written:
  assumes "CHR 0x00 \<notin> set s" and "length s < 4294967295" and "\<not> ifail (stream r)"
    and "ibuf (stream r) =
           (if need_to_swab r then rev (uint_bytes le (length s)) else uint_bytes le (length s)) @
           s @ replicate ((4 - length s mod 4) mod 4) (CHR 0x00) @ rest"
  shows "read_string le n0 s0 str r =
     (Inr (if s = [] then 1 else length s, s), r\<lparr>stream := (stream r)\<lparr>ibuf := rest\<rparr>\<rparr>)"
proof -
  let ?hdr = "if need_to_swab r then rev (uint_bytes le (length s)) else uint_bytes le (length s)"
  let ?body = "s @ replicate ((4 - length s mod 4) mod 4) (CHR 0x00) @ rest"
  let ?r1 = "r\<lparr>stream := (stream r)\<lparr>ibuf := ?body\<rparr>\<rparr>"
  have lh: "length ?hdr = 4" by (simp add: length_uint_bytes)
  have a: "read_scalar 4 n0 r = (Inr (uint_bytes le (length s), 1), ?r1)"
    using read_scalar_word [OF lh assms(3), of ?body n0] assms(4) by simp
  have n: "bytes_uint le (uint_bytes le (length s)) = length s"
    using assms(2) by (simp add: bytes_uint_bytes)
  have w: "(length s + 1) mod 4294967296 \<noteq> 0"
    using assms(2) by simp
  show ?thesis
  proof (cases "s = []")
    case True
    then show ?thesis
      using a n w
      by (simp add: read_string_def read_cstr_def read_opaque_zero)
  next
    case False
    then have p: "0 < length s" by simp
    have g: "\<not> ifail (stream ?r1)" using assms(3) by simp
    have l: "length s + (4 - length s mod 4) mod 4 \<le> length (ibuf (stream ?r1))" by simp
    have b: "read_opaque (length s) ?r1 =
        ((length s, s), r\<lparr>stream := (stream r)\<lparr>ibuf := rest\<rparr>\<rparr>)"
      using read_opaque_good [OF p g l] by simp
    have m: "map (\<lambda>k. if k < length s then s ! k else s0 k) [0..<length s] = s"
      by (rule map_nth_default)
    show ?thesis
      using False a n w assms(1)
      by (simp add: read_string_def read_cstr_def b m takeWhile_terminated)
  qed
qed

lemma read_string_fails_iff:
  assumes "read_scalar 4 n0 r = (Inr (nb, ok), r1)" and "bytes_uint le nb \<noteq> 4294967295"
    and "bytes_uint le nb < 4294967296"
  shows "(\<exists>x. fst (read_string le n0 s0 str r) = Inr (0, x)) \<longleftrightarrow>
     (ok = 0 \<or> fst (fst (read_opaque (bytes_uint le nb) r1)) < bytes_uint le nb)"
proof (cases "ok = 0")
  case True
  then show ?thesis using assms(1) by (simp add: read_string_def read_cstr_def)
next
  case False
  let ?n = "bytes_uint le nb"
  have w: "(?n + 1) mod 4294967296 \<noteq> 0" using assms(2,3) by simp
  obtain i got r2 where o: "read_opaque ?n r1 = ((i, got), r2)"
    by (metis surj_pair)
  have c: "i = 0 \<longleftrightarrow> i < ?n"
    using o by (auto simp add: read_opaque_def Let_def split: if_splits prod.splits)
  show ?thesis
    using False assms(1) w o c
    by (simp add: read_string_def read_cstr_def)
qed


lemma read_scalar_length:
  "read_scalar k r0 r = (Inr (nb, ok), r1) \<Longrightarrow> length nb = k"
  by (auto simp add: read_scalar_def result_bytes_def Let_def swab_def
      split: if_splits prod.splits)

lemma byte_step: "(a::nat) < 256 \<Longrightarrow> b < m \<Longrightarrow> a + 256 * b < 256 * m"
  by arith

lemma four_bytes_bound:
  assumes "x0 < 256" and "x1 < 256" and "x2 < 256" and "x3 < 256"
  shows "x0 + 256 * (x1 + 256 * (x2 + 256 * (x3 + 256 * 0))) < (4294967296::nat)"
proof -
  have "x2 + 256 * x3 < 256 * 256"
    by (rule byte_step [OF assms(3,4)])
  then have "x1 + 256 * (x2 + 256 * x3) < 256 * (256 * 256)"
    by (rule byte_step [OF assms(2)])
  then have "x0 + 256 * (x1 + 256 * (x2 + 256 * x3)) < 256 * (256 * (256 * 256))"
    by (rule byte_step [OF assms(1)])
  then show ?thesis by simp
qed

lemma bytes_uint_bound: "length bs = 4 \<Longrightarrow> bytes_uint le bs < 4294967296"
proof -
  assume "length bs = 4"
  then obtain a b c d where bs: "bs = [a, b, c, d]"
    by (auto simp add: length_Suc_conv numeral_eq_Suc)
  have l: "(of_char x :: nat) < 256" for x by simp
  show ?thesis
  proof (cases le)
    case True
    then show ?thesis
      using four_bytes_bound [OF l [of a] l [of b] l [of c] l [of d]]
      by (simp add: bs bytes_uint_def)
  next
    case False
    then show ?thesis
      using four_bytes_bound [OF l [of d] l [of c] l [of b] l [of a]]
      by (simp add: bs bytes_uint_def)
  qed
qed

lemma ex_written:
  "write_string True ex_zero [CHR ''a'', CHR 0x00, CHR ''b''] (ex_writer True) =
     (Inr 1, (ex_writer True)\<lparr>stream' := (stream' (ex_writer True))
        \<lparr>obuf := rev (uint_bytes True 1) @ ''a'' @ replicate 3 (CHR 0x00)\<rparr>\<rparr>)"
proof -
  let ?w = "ex_writer True"
  let ?w1 = "?w\<lparr>stream' := (stream' ?w)\<lparr>obuf := obuf (stream' ?w) @
               (if need_to_swab' ?w then rev (uint_bytes True 1) else uint_bytes True 1)\<rparr>\<rparr>"
  have g: "\<not> fail (stream' ?w)" by (simp add: ex_writer_def fail_def)
  have n: "strlen [CHR ''a'', CHR 0x00, CHR ''b''] mod 4294967296 = 1"
    by (simp add: strlen_def)
  have a: "write_scalar (uint_bytes True 1) ex_zero ?w = (Inr 1, ?w1)"
    by (rule write_scalar_word [OF length_uint_bytes g])
  have g1: "\<not> fail (stream' ?w1)" by (simp add: ex_writer_def fail_def)
  have b: "write_opaque ([CHR ''a'', CHR 0x00, CHR ''b''] @ [CHR 0x00]) 1 ?w1 =
      (Inr 1, ?w1\<lparr>stream' := (stream' ?w1)\<lparr>obuf := obuf (stream' ?w1) @
         take 1 ([CHR ''a'', CHR 0x00, CHR ''b''] @ [CHR 0x00]) @
         replicate ((4 - 1 mod 4) mod 4) (CHR 0x00)\<rparr>\<rparr>)"
    by (rule write_opaque_good [OF _ g1]) simp
  have "write_string True ex_zero [CHR ''a'', CHR 0x00, CHR ''b''] ?w =
      write_opaque ([CHR ''a'', CHR 0x00, CHR ''b''] @ [CHR 0x00]) 1 ?w1"
    unfolding write_string_def n Let_def a by simp
  also note b
  finally show ?thesis
    by (simp add: ex_writer_def)
qed


text \<open>
  C8, as the spec states it: for every string \<open>s\<close>, \<open>writeString(s)\<close> followed by
  \<open>readString()\<close> returns \<open>s\<close>. The writer goes through \<^verbatim>\<open>s.c_str()\<close> and \<^verbatim>\<open>strlen\<close>, so a
  string with a zero byte in it is cut there: writing the three bytes \<open>a\<close>, \<open>0\<close>, \<open>b\<close> and
  reading back gives the one-byte string \<open>a\<close>.
\<close>

theorem string_roundtrip_counterexample:
  "fst (read_string True ex_zero ex_zero []
      (ex_reader True (obuf (stream' (snd
        (write_string True ex_zero [CHR ''a'', CHR 0x00, CHR ''b''] (ex_writer True)))))))
     = Inr (1, ''a'')
   \<and> ''a'' \<noteq> [CHR ''a'', CHR 0x00, CHR ''b'']"
proof -
  let ?bs = "rev (uint_bytes True 1) @ ''a'' @ replicate 3 (CHR 0x00)"
  have o: "obuf (stream' (snd
      (write_string True ex_zero [CHR ''a'', CHR 0x00, CHR ''b''] (ex_writer True)))) = ?bs"
    by (simp add: ex_written)
  have "read_string True ex_zero ex_zero [] (ex_reader True ?bs) =
      (Inr (if ''a'' = [] then 1 else length ''a'', ''a''),
       (ex_reader True ?bs)\<lparr>stream := (stream (ex_reader True ?bs))\<lparr>ibuf := []\<rparr>\<rparr>)"
    by (rule read_string_written) (simp_all add: ex_reader_def)
  then show ?thesis
    unfolding o by simp
qed

text \<open>
  C8, amended: for every string \<open>s\<close> without a zero byte and shorter than \<open>2 ^ 32 - 1\<close>
  bytes, the empty string included, writing \<open>s\<close> to a stream in good state returns the
  length of \<open>s\<close>, and a reader with the same swap flag, on a stream in good state that
  holds the bytes just written (and then any others), reads \<open>s\<close> back, consumes exactly
  the bytes written and returns the length of \<open>s\<close>, or 1 for the empty string. Whenever the
  length prefix read is not \<open>2 ^ 32 - 1\<close>, \<open>readString\<close> returns 0 exactly when the read of
  the prefix has failed or the opaque read has returned fewer bytes than the prefix asked
  for.
\<close>

theorem string_roundtrip:
  "(CHR 0x00 \<notin> set s \<and> length s < 4294967295 \<and> \<not> fail (stream' w) \<and> \<not> ifail (stream r) \<and>
    need_to_swab r = need_to_swab' w \<and>
    ibuf (stream r) =
      drop (length (obuf (stream' w))) (obuf (stream' (snd (write_string le u0 s w)))) @ rest
    \<longrightarrow>
      fst (write_string le u0 s w) = Inr (length s) \<and>
      read_string le n0 s0 str r =
        (Inr (if s = [] then 1 else length s, s), r\<lparr>stream := (stream r)\<lparr>ibuf := rest\<rparr>\<rparr>))
   \<and> (read_scalar 4 n0 r = (Inr (nb, ok), r1) \<and> bytes_uint le nb \<noteq> 4294967295 \<longrightarrow>
        ((\<exists>x. fst (read_string le n0 s0 str r) = Inr (0, x)) \<longleftrightarrow>
         (ok = 0 \<or> fst (fst (read_opaque (bytes_uint le nb) r1)) < bytes_uint le nb)))"
proof (intro conjI impI)
  assume h: "CHR 0x00 \<notin> set s \<and> length s < 4294967295 \<and> \<not> fail (stream' w) \<and>
    \<not> ifail (stream r) \<and> need_to_swab r = need_to_swab' w \<and>
    ibuf (stream r) =
      drop (length (obuf (stream' w))) (obuf (stream' (snd (write_string le u0 s w)))) @ rest"
  then have z: "CHR 0x00 \<notin> set s" and l: "length s < 4294967295" and g: "\<not> fail (stream' w)"
    and f: "\<not> ifail (stream r)" and sw: "need_to_swab r = need_to_swab' w"
    by simp_all
  have l': "length s < 4294967296" using l by simp
  note e = write_string_good [OF z l' g, of le u0]
  show "fst (write_string le u0 s w) = Inr (length s)"
    by (simp add: e)
  have i: "ibuf (stream r) =
      (if need_to_swab r then rev (uint_bytes le (length s)) else uint_bytes le (length s)) @
      s @ replicate ((4 - length s mod 4) mod 4) (CHR 0x00) @ rest"
    using h by (simp add: e sw)
  show "read_string le n0 s0 str r =
        (Inr (if s = [] then 1 else length s, s), r\<lparr>stream := (stream r)\<lparr>ibuf := rest\<rparr>\<rparr>)"
    by (rule read_string_written [OF z l f i])
next
  assume h: "read_scalar 4 n0 r = (Inr (nb, ok), r1) \<and> bytes_uint le nb \<noteq> 4294967295"
  then have "length nb = 4" using read_scalar_length by blast
  then have "bytes_uint le nb < 4294967296" by (rule bytes_uint_bound)
  then show "(\<exists>x. fst (read_string le n0 s0 str r) = Inr (0, x)) \<longleftrightarrow>
         (ok = 0 \<or> fst (fst (read_opaque (bytes_uint le nb) r1)) < bytes_uint le nb)"
    using h read_string_fails_iff by blast
qed

lemma ex_read_empty:
  "read_scalar 4 ex_zero (ex_reader True []) =
     (Inr ([CHR 0x00, CHR 0x00, CHR 0x00, CHR 0x00], 0),
      \<lparr>stream = \<lparr>ibuf = [], ifail = True\<rparr>, need_to_swab = True\<rparr>)"
  by (simp add: read_scalar_def result_bytes_def istream_read_def ex_reader_def ex_zero_def swab_def
      upt_conv_Cons)

lemma ex_zero_prefix: "bytes_uint True [CHR 0x00, CHR 0x00, CHR 0x00, CHR 0x00] = 0"
  by (simp add: bytes_uint_def)

theorem string_roundtrip_witness:
  "read_string True ex_zero ex_zero []
      (ex_reader True (obuf (stream' (snd (write_string True ex_zero ''abc'' (ex_writer True))))))
     = (Inr (3, ''abc''), ex_reader True [])
   \<and> read_string False ex_zero ex_zero ''old''
      (ex_reader False (obuf (stream' (snd (write_string False ex_zero [] (ex_writer False))))))
     = (Inr (1, []), ex_reader False [])
   \<and> (\<exists>x. fst (read_string True ex_zero ex_zero [] (ex_reader True [])) = Inr (0, x))"
proof -
  let ?w = "ex_writer True" and ?v = "ex_writer False"
  let ?r = "ex_reader True (obuf (stream' (snd (write_string True ex_zero ''abc'' ?w))))"
  let ?q = "ex_reader False (obuf (stream' (snd (write_string False ex_zero [] ?v))))"
  have h1: "CHR 0x00 \<notin> set ''abc'' \<and> length ''abc'' < 4294967295 \<and> \<not> fail (stream' ?w) \<and>
      \<not> ifail (stream ?r) \<and> need_to_swab ?r = need_to_swab' ?w \<and>
      ibuf (stream ?r) =
        drop (length (obuf (stream' ?w))) (obuf (stream' (snd (write_string True ex_zero ''abc'' ?w))))
          @ []"
    by (simp add: ex_reader_def) (simp add: ex_writer_def fail_def)
  have h2: "CHR 0x00 \<notin> set [] \<and> length ([] :: string) < 4294967295 \<and> \<not> fail (stream' ?v) \<and>
      \<not> ifail (stream ?q) \<and> need_to_swab ?q = need_to_swab' ?v \<and>
      ibuf (stream ?q) =
        drop (length (obuf (stream' ?v))) (obuf (stream' (snd (write_string False ex_zero [] ?v))))
          @ []"
    by (simp add: ex_reader_def) (simp add: ex_writer_def fail_def)
  have h3: "read_scalar 4 ex_zero (ex_reader True []) =
      (Inr ([CHR 0x00, CHR 0x00, CHR 0x00, CHR 0x00], 0),
       \<lparr>stream = \<lparr>ibuf = [], ifail = True\<rparr>, need_to_swab = True\<rparr>) \<and>
      bytes_uint True [CHR 0x00, CHR 0x00, CHR 0x00, CHR 0x00] \<noteq> 4294967295"
    by (simp add: ex_read_empty ex_zero_prefix)
  have c1: "read_string True ex_zero ex_zero [] ?r =
      (Inr (if ''abc'' = [] then 1 else length ''abc'', ''abc''),
       ?r\<lparr>stream := (stream ?r)\<lparr>ibuf := []\<rparr>\<rparr>)"
    using string_roundtrip [where s = "''abc''" and w = ?w and r = ?r and le = True
        and ?u0.0 = ex_zero and rest = "[]" and ?n0.0 = ex_zero and ?s0.0 = ex_zero and str = "[]"] h1
    by blast
  have c2: "read_string False ex_zero ex_zero ''old'' ?q =
      (Inr (if ([] :: string) = [] then 1 else length ([] :: string), []),
       ?q\<lparr>stream := (stream ?q)\<lparr>ibuf := []\<rparr>\<rparr>)"
    using string_roundtrip [where s = "[]" and w = ?v and r = ?q and le = False
        and ?u0.0 = ex_zero and rest = "[]" and ?n0.0 = ex_zero and ?s0.0 = ex_zero
        and str = "''old''"] h2
    by blast
  have c3: "\<exists>x. fst (read_string True ex_zero ex_zero [] (ex_reader True [])) = Inr (0, x)"
    using string_roundtrip [where r = "ex_reader True []" and le = True and ?n0.0 = ex_zero
        and ?s0.0 = ex_zero and str = "[]" and nb = "[CHR 0x00, CHR 0x00, CHR 0x00, CHR 0x00]"
        and ok = 0 and ?r1.0 = "\<lparr>stream = \<lparr>ibuf = [], ifail = True\<rparr>, need_to_swab = True\<rparr>"] h3
    by blast
  show ?thesis
    unfolding c1 c2 using c3 by (simp add: ex_reader_def)
qed

lemma result_bytes_take:
  "k \<le> length got \<Longrightarrow> result_bytes k r0 got = take k got"
  unfolding result_bytes_def by (rule nth_equalityI) simp_all

lemma write_scalar_good:
  assumes "length p \<le> 4" and "\<not> fail (stream' w)"
  shows "write_scalar p u0 w =
     (Inr 1, w\<lparr>stream' := (stream' w)\<lparr>obuf := obuf (stream' w) @
        (if length p > 1 \<and> need_to_swab' w then rev (p @ map u0 [length p..<4])
         else p @ map u0 [length p..<4])\<rparr>\<rparr>)"
  using assms
  by (simp add: write_scalar_def Let_def ostream_write_def fail_def swab_def)

lemma read_scalar_overrun:
  assumes "k < 4" and "length bs = 4" and "\<not> ifail (stream r)" and "ibuf (stream r) = bs @ rest"
  shows "read_scalar k r0 r = (Inl OutOfRange, r\<lparr>stream := (stream r)\<lparr>ibuf := rest\<rparr>\<rparr>)"
  using assms by (simp add: read_scalar_def Let_def istream_read_def)

text \<open>
  What holds of the round trip of a scalar: a datum of four bytes is read back as it was
  written, with the swap flag on or off, and the read of a datum of fewer than four bytes
  from the four bytes written for it runs past \<open>result\<close>.
\<close>

lemma scalar_roundtrip_word:
  assumes "length p = 4" and "\<not> fail (stream' w)"
  shows "fst (read_scalar 4 r0
           \<lparr>stream = \<lparr>ibuf = drop (length (obuf (stream' w)))
                              (obuf (stream' (snd (write_scalar p u0 w)))) @ rest,
                      ifail = False\<rparr>,
            need_to_swab = need_to_swab' w\<rparr>) = Inr (p, 1)"
proof -
  let ?bs = "if need_to_swab' w then rev p else p"
  have l: "length ?bs = 4" using assms(1) by simp
  have o: "drop (length (obuf (stream' w))) (obuf (stream' (snd (write_scalar p u0 w)))) = ?bs"
    by (simp add: write_scalar_word [OF assms])
  show ?thesis
    unfolding o
    by (subst read_scalar_word [OF l, where rest = rest]) auto
qed

lemma scalar_subword_overrun:
  assumes "length p < 4" and "\<not> fail (stream' w)"
  shows "fst (read_scalar (length p) r0
           \<lparr>stream = \<lparr>ibuf = drop (length (obuf (stream' w)))
                              (obuf (stream' (snd (write_scalar p u0 w)))) @ rest,
                      ifail = False\<rparr>,
            need_to_swab = need_to_swab' w\<rparr>) = Inl OutOfRange"
proof -
  let ?u = "p @ map u0 [length p..<4]"
  let ?bs = "if length p > 1 \<and> need_to_swab' w then rev ?u else ?u"
  have l4: "length p \<le> 4" using assms(1) by simp
  have l: "length ?bs = 4" using assms(1) by simp
  have o: "drop (length (obuf (stream' w))) (obuf (stream' (snd (write_scalar p u0 w)))) = ?bs"
    by (simp add: write_scalar_good [OF l4 assms(2)])
  show ?thesis
    unfolding o
    by (subst read_scalar_overrun [OF assms(1) l, where rest = rest]) auto
qed

text \<open>
  C2: the round trip fails for a two-byte scalar when the swap flag is on. The writer
  reverses the whole four-byte block \<open>u\<close>, of which the datum fills the first two bytes
  only, so the datum ends up in the last two bytes on the wire. The reader stores the four
  bytes of the wire at the address of its two-byte \<open>T result\<close>, past the end of the object,
  and swaps just the two bytes of \<open>result\<close>, the first two on the wire: the bytes left in
  \<open>result\<close> are the pair of indeterminate bytes that \<open>u\<close> held at offsets 2 and 3, whatever
  the datum; for the datum \<open>0x1234\<close> of a little-endian host and a zeroed block they are
  the value 0. On a big-endian host the reader's flag is off, but the writer's constructor
  leaves its flag uninitialised; where that flag happens to be on, a four-byte datum is
  read back with its bytes reversed.
\<close>

theorem scalar_roundtrip_fails:
  "fst (read_scalar 2 r0
      (ex_reader True (obuf (stream' (snd (write_scalar [b0, b1] u0 (ex_writer True)))))))
     = Inl OutOfRange
   \<and> swab (result_bytes 2 r0
        (obuf (stream' (snd (write_scalar [b0, b1] u0 (ex_writer True))))))
     = [u0 2, u0 3]
   \<and> swab (result_bytes 2 ex_zero
        (obuf (stream' (snd (write_scalar [CHR 0x34, CHR 0x12] ex_zero (ex_writer True))))))
     = [CHR 0x00, CHR 0x00]
   \<and> [CHR 0x00, CHR 0x00] \<noteq> [CHR 0x34, CHR 0x12]
   \<and> fst (read_scalar 4 r0
      (XDRReader_new False \<lparr>ibuf = obuf (stream' (snd
        (write_scalar [b0, b1, b2, b3] u0
          (XDRWriter_new False True \<lparr>obuf = [], failbit = False, badbit = False\<rparr>)))),
        ifail = False\<rparr>))
     = Inr ([b3, b2, b1, b0], 1)"
proof -
  have g: "\<not> fail (stream' (ex_writer True))" by (simp add: ex_writer_def fail_def)
  have u: "[2..<4] = [2, 3::nat]" by (simp add: upt_conv_Cons)
  have wire: "obuf (stream' (snd (write_scalar [c0, c1] v (ex_writer True)))) =
      [v 3, v 2, c1, c0]" for c0 c1 v
  proof -
    have len: "length [c0, c1] = 2" by simp
    have "length [c0, c1] \<le> 4" by simp
    note t = write_scalar_good [OF this g, of v, unfolded len]
    have "rev ([c0, c1] @ map v [2..<4]) = [v 3, v 2, c1, c0]"
      by (simp add: u)
    with t show ?thesis
      by (simp add: ex_writer_def)
  qed
  have a: "fst (read_scalar 2 r0 (ex_reader True [u0 3, u0 2, b1, b0])) = Inl OutOfRange"
    using read_scalar_overrun [of 2 "[u0 3, u0 2, b1, b0]"
        "ex_reader True [u0 3, u0 2, b1, b0]" "[]" r0]
    by (simp add: ex_reader_def)
  have b: "swab (result_bytes 2 r [x, y, c1, c0]) = [y, x]" for r x y c0 c1
    by (simp add: result_bytes_take swab_def)
  let ?w = "XDRWriter_new False True \<lparr>obuf = [], failbit = False, badbit = False\<rparr>"
  have gw: "\<not> fail (stream' ?w)" and fw: "need_to_swab' ?w"
    by (simp_all add: XDRWriter_new_def fail_def)
  have l4: "length [b0, b1, b2, b3] = 4" by simp
  have o: "obuf (stream' (snd (write_scalar [b0, b1, b2, b3] u0 ?w))) = [b3, b2, b1, b0]"
    using write_scalar_word [OF l4 gw, of u0] fw by (simp add: XDRWriter_new_def)
  have c: "fst (read_scalar 4 r0 (XDRReader_new False \<lparr>ibuf = [b3, b2, b1, b0], ifail = False\<rparr>))
      = Inr ([b3, b2, b1, b0], 1)"
    using read_scalar_word [of "[b3, b2, b1, b0]"
        "XDRReader_new False \<lparr>ibuf = [b3, b2, b1, b0], ifail = False\<rparr>" "[]" r0]
    by (simp add: XDRReader_new_def)
  show ?thesis
    unfolding o wire using a b c by (simp add: ex_zero_def)
qed

end
